theory Spec2Isabelle
  imports
    Complex_Main
    "HOL-Library.Char_ord"
    "HOL-Library.List_Lexorder"
    "HOL-Library.Product_Lexorder"
    "HOL-Library.Multiset"
begin

section \<open>The sales pipeline of \<^verbatim>\<open>airflow_data/dags/sales_pipeline.py\<close>\<close>

text \<open>
  The DAG module declares twelve tasks. Three of them fill the bronze tables, one joins them
  into \<^verbatim>\<open>silver_sales\<close>, seven derive one gold table each from the silver table. Every task
  is a Python callable that reads tables of one MySQL database and writes one table.

  The embedding keeps the tables of the database in a record (one field per table, \<open>None\<close>
  while the table does not exist), turns each callable into a function from the database to
  an error or the updated database, and turns the two \<^verbatim>\<open>>>\<close> chains at the end of the module
  into a list of edges.

  Numbers: pandas reads integer columns as 64-bit integers and decimal columns as 64-bit
  floats. The model uses unbounded \<open>int\<close> and exact \<open>rat\<close>; overflow and rounding are outside
  of it. Columns the code never names are left out of the rows.

  The module is read as Python 3.12 or later: the f-string of
  \<^verbatim>\<open>process_avg_order_quantity\<close> nests double quotes, which earlier versions reject when they
  load the module. The behaviour of pandas, requests and Airflow is modelled as these
  libraries document it.
\<close>

subsection \<open>Errors\<close>

datatype error =
  KeyError              \<comment> \<open>\<^verbatim>\<open>set_index\<close> on a frame without the column\<close>
  | IndexError          \<comment> \<open>\<^verbatim>\<open>d["weather"][0]\<close> on an empty list\<close>
  | ValueError          \<comment> \<open>\<^verbatim>\<open>to_sql(if_exists='fail')\<close> on an existing table; unparseable date\<close>
  | ConnectionError     \<comment> \<open>\<^verbatim>\<open>requests.get\<close> cannot reach the server\<close>
  | FileNotFoundError   \<comment> \<open>\<^verbatim>\<open>pd.read_csv\<close> on a missing file\<close>
  | ProgrammingError    \<comment> \<open>a query that names a table which does not exist\<close>

subsection \<open>Rows\<close>

text \<open>A user of the customer API, as \<^verbatim>\<open>pd.json_normalize\<close> and \<^verbatim>\<open>normalize_columns\<close> flatten it.\<close>

record customer_row =
  c_id :: int
  c_name :: string
  c_address_geo_lat :: string
  c_address_geo_lng :: string

text \<open>The JSON body of a weather lookup: \<^verbatim>\<open>weather\<close> is a list of conditions.\<close>

record weather_json =
  j_weather :: "string list"
  j_main_temp :: rat
  j_main_feels_like :: rat
  j_main_humidity :: int
  j_wind_speed :: rat
  j_clouds_all :: int

record response =
  status_code :: int
  json :: weather_json

record weather_row =
  w_customer_id :: int
  w_weather_description :: string
  w_main_temp :: rat
  w_main_feels_like :: rat
  w_main_humidity :: int
  w_wind_speed :: rat
  w_clouds_all :: int

text \<open>A line of \<^verbatim>\<open>sales_data.csv\<close>.\<close>

record order_row =
  customer_id :: int
  product_id :: string
  quantity :: int
  price :: rat
  order_date :: string

text \<open>A row of \<^verbatim>\<open>silver_sales\<close>: \<^verbatim>\<open>o.*\<close> and the selected columns of \<^verbatim>\<open>c\<close> and \<^verbatim>\<open>w\<close>.\<close>

record silver_row = order_row +
  customer_name :: string
  address_geo_lat :: string
  address_geo_lng :: string
  weather_description :: string
  main_temp :: rat
  main_feels_like :: rat
  main_humidity :: int
  wind_speed :: rat
  clouds_all :: int

subsection \<open>The database\<close>

record db =
  bronze_customers :: "customer_row list option"
  bronze_orders :: "order_row list option"
  bronze_weather :: "weather_row list option"
  silver_sales :: "silver_row list option"
  gold_total_sales_by_customer :: "(int \<times> rat) list option"
  gold_avg_order_quantity_per_product :: "(string \<times> rat) list option"
  gold_top_selling_products :: "(string \<times> int) list option"
  gold_top_selling_customers :: "(int \<times> int) list option"
  gold_sales_trends_monthly :: "((int \<times> int) \<times> int \<times> rat) list option"
  gold_sales_trends_quarterly :: "((int \<times> int) \<times> int \<times> rat) list option"
  gold_sales_per_weather_condition :: "(string \<times> rat) list option"

text \<open>
  What the module reaches outside of the database and of its own code: the two HTTP APIs,
  the CSV file beside the DAG, and the index permutation that \<^verbatim>\<open>sort_values\<close> obtains from
  its sorting routine for a column of keys sorted in descending order. The code passes no
  \<^verbatim>\<open>kind\<close>, so the routine is pandas' default \<^verbatim>\<open>'quicksort'\<close>, which pandas documents as not
  stable; the model takes the permutation as given by the environment.
\<close>

record env =
  users_api :: "error + customer_row list"
  weather_api :: "string \<Rightarrow> string \<Rightarrow> error + response"
  sales_data_csv :: "error + order_row list"
  argsort_desc :: "int list \<Rightarrow> nat list"

subsection \<open>The storage helpers\<close>

datatype if_exists = Fail | Replace | Append

text \<open>
  \<^verbatim>\<open>DataFrame.to_sql\<close> on the table \<open>old\<close>. The database is taken to be reachable. The
  arguments \<^verbatim>\<open>index\<close> and \<^verbatim>\<open>index_labels\<close> of \<^verbatim>\<open>write_to_db\<close> decide whether the index of the
  frame is written as columns; every caller writes the columns of the rows modelled here.
\<close>

definition to_sql :: "'r list \<Rightarrow> 'r list option \<Rightarrow> if_exists \<Rightarrow> error + 'r list option" where
  "to_sql df old mode =
     (case old of
        None \<Rightarrow> Inr (Some df)
      | Some rows \<Rightarrow>
          (case mode of
             Fail \<Rightarrow> Inl ValueError
           | Replace \<Rightarrow> Inr (Some df)
           | Append \<Rightarrow> Inr (Some (rows @ df))))"

definition write_to_db :: "'r list \<Rightarrow> 'r list option \<Rightarrow> if_exists \<Rightarrow> error + 'r list option" where
  "write_to_db df table mode = to_sql df table mode"

text \<open>\<^verbatim>\<open>load_from_db("SELECT * FROM t")\<close>.\<close>

definition load_from_db :: "'r list option \<Rightarrow> error + 'r list" where
  "load_from_db table = (case table of None \<Rightarrow> Inl ProgrammingError | Some rows \<Rightarrow> Inr rows)"

subsection \<open>The bronze layer\<close>

text \<open>
  Both API tasks turn a list of records into a frame with \<^verbatim>\<open>pd.json_normalize\<close>, rename its
  columns with \<^verbatim>\<open>normalize_columns\<close> and call \<^verbatim>\<open>set_index\<close> with a key every record carries.
  \<^verbatim>\<open>pd.json_normalize([])\<close> is a frame without columns, and \<^verbatim>\<open>set_index\<close> raises \<^verbatim>\<open>KeyError\<close>
  for a column the frame does not have; on a list that is not empty the three steps keep
  the records.
\<close>

definition set_index_normalized :: "'r list \<Rightarrow> error + 'r list" where
  "set_index_normalized records = (if records = [] then Inl KeyError else Inr records)"

text \<open>\<^verbatim>\<open>fetch_users\<close> is the field \<open>users_api\<close> of the environment.\<close>

definition fetch_transform_write :: "env \<Rightarrow> db \<Rightarrow> error + db" where
  "fetch_transform_write e d =
     (case users_api e of
        Inl err \<Rightarrow> Inl err
      | Inr users \<Rightarrow>
          (case set_index_normalized users of
             Inl err \<Rightarrow> Inl err
           | Inr df \<Rightarrow>
               (case write_to_db df (bronze_customers d) Replace of
                  Inl err \<Rightarrow> Inl err
                | Inr t \<Rightarrow> Inr (d\<lparr>bronze_customers := t\<rparr>))))"

definition load_csv :: "env \<Rightarrow> db \<Rightarrow> error + db" where
  "load_csv e d =
     (case sales_data_csv e of
        Inl err \<Rightarrow> Inl err
      | Inr df \<Rightarrow>
          (case write_to_db df (bronze_orders d) Replace of
             Inl err \<Rightarrow> Inl err
           | Inr t \<Rightarrow> Inr (d\<lparr>bronze_orders := t\<rparr>)))"

text \<open>\<^verbatim>\<open>get_weather\<close>: the body tagged with the customer id, or \<^verbatim>\<open>None\<close>.\<close>

definition get_weather :: "env \<Rightarrow> int \<Rightarrow> string \<Rightarrow> string \<Rightarrow> error + (int \<times> weather_json) option" where
  "get_weather e i lat lon =
     (case weather_api e lat lon of
        Inl err \<Rightarrow> Inl err
      | Inr r \<Rightarrow> if status_code r = 200 then Inr (Some (i, json r)) else Inr None)"

text \<open>\<^verbatim>\<open>df.apply(lambda row: get_weather(...), axis=1)\<close>: the first exception ends the task.\<close>

fun apply_get_weather :: "env \<Rightarrow> customer_row list \<Rightarrow> error + (int \<times> weather_json) option list" where
  "apply_get_weather e [] = Inr []"
| "apply_get_weather e (row # rows) =
     (case get_weather e (c_id row) (c_address_geo_lat row) (c_address_geo_lng row) of
        Inl err \<Rightarrow> Inl err
      | Inr w \<Rightarrow>
          (case apply_get_weather e rows of
             Inl err \<Rightarrow> Inl err
           | Inr ws \<Rightarrow> Inr (w # ws)))"

text \<open>\<^verbatim>\<open>filter(None, ...)\<close> keeps the lookups that returned a body.\<close>

fun filter_None :: "'a option list \<Rightarrow> 'a list" where
  "filter_None [] = []"
| "filter_None (None # xs) = filter_None xs"
| "filter_None (Some x # xs) = x # filter_None xs"

text \<open>The loop \<^verbatim>\<open>d["weather"] = d["weather"][0]\<close>, and the flattening of each record.\<close>

fun unwrap_weather :: "(int \<times> weather_json) list \<Rightarrow> error + weather_row list" where
  "unwrap_weather [] = Inr []"
| "unwrap_weather ((i, j) # ds) =
     (case j_weather j of
        [] \<Rightarrow> Inl IndexError
      | descr # _ \<Rightarrow>
          (case unwrap_weather ds of
             Inl err \<Rightarrow> Inl err
           | Inr rows \<Rightarrow>
               Inr (\<lparr>w_customer_id = i, w_weather_description = descr,
                     w_main_temp = j_main_temp j, w_main_feels_like = j_main_feels_like j,
                     w_main_humidity = j_main_humidity j, w_wind_speed = j_wind_speed j,
                     w_clouds_all = j_clouds_all j\<rparr> # rows)))"

definition fetch_weather :: "env \<Rightarrow> db \<Rightarrow> error + db" where
  "fetch_weather e d =
     (case load_from_db (bronze_customers d) of
        Inl err \<Rightarrow> Inl err
      | Inr df \<Rightarrow>
          (case apply_get_weather e df of
             Inl err \<Rightarrow> Inl err
           | Inr weather \<Rightarrow>
               (case unwrap_weather (filter_None weather) of
                  Inl err \<Rightarrow> Inl err
                | Inr weather_list1 \<Rightarrow>
                    (case set_index_normalized weather_list1 of
                       Inl err \<Rightarrow> Inl err
                     | Inr weather_df \<Rightarrow>
                         (case write_to_db weather_df (bronze_weather d) Replace of
                            Inl err \<Rightarrow> Inl err
                          | Inr t \<Rightarrow> Inr (d\<lparr>bronze_weather := t\<rparr>))))))"

subsection \<open>The silver layer\<close>

definition silver_of :: "order_row \<Rightarrow> customer_row \<Rightarrow> weather_row \<Rightarrow> silver_row" where
  "silver_of od c w =
     \<lparr>customer_id = customer_id od, product_id = product_id od, quantity = quantity od,
      price = price od, order_date = order_date od,
      customer_name = c_name c, address_geo_lat = c_address_geo_lat c,
      address_geo_lng = c_address_geo_lng c,
      weather_description = w_weather_description w, main_temp = w_main_temp w,
      main_feels_like = w_main_feels_like w, main_humidity = w_main_humidity w,
      wind_speed = w_wind_speed w, clouds_all = w_clouds_all w\<rparr>"

text \<open>
  The query of \<^verbatim>\<open>etl_sales\<close>: \<^verbatim>\<open>bronze_orders o inner join bronze_customers c on c.id = o.customer_id
  inner join bronze_weather w on w.customer_id = o.customer_id\<close>. SQL promises no order of the
  result; the model lists the rows order by order, and within an order by customer row and
  weather row.
\<close>

definition etl_query :: "order_row list \<Rightarrow> customer_row list \<Rightarrow> weather_row list \<Rightarrow> silver_row list" where
  "etl_query os cs ws =
     concat (map (\<lambda>od.
       concat (map (\<lambda>c.
         map (\<lambda>w. silver_of od c w) (filter (\<lambda>w. w_customer_id w = customer_id od) ws))
         (filter (\<lambda>c. c_id c = customer_id od) cs))) os)"

definition etl_sales :: "db \<Rightarrow> error + db" where
  "etl_sales d =
     (case (bronze_orders d, bronze_customers d, bronze_weather d) of
        (Some os, Some cs, Some ws) \<Rightarrow>
          (case write_to_db (etl_query os cs ws) (silver_sales d) Replace of
             Inl err \<Rightarrow> Inl err
           | Inr t \<Rightarrow> Inr (d\<lparr>silver_sales := t\<rparr>))
      | _ \<Rightarrow> Inl ProgrammingError)"

subsection \<open>The gold layer\<close>

text \<open>
  \<^verbatim>\<open>df.groupby(keys).agg(...).reset_index()\<close>: one row per distinct key, the keys in
  ascending order (\<^verbatim>\<open>sort=True\<close> is the default), each with the aggregate of its group.
\<close>

definition groupby_agg :: "('r \<Rightarrow> 'k::linorder) \<Rightarrow> ('r list \<Rightarrow> 'v) \<Rightarrow> 'r list \<Rightarrow> ('k \<times> 'v) list" where
  "groupby_agg key agg df =
     map (\<lambda>k. (k, agg (filter (\<lambda>r. key r = k) df))) (sort (remdups (map key df)))"

text \<open>The column \<^verbatim>\<open>df["total_sales"] = df["quantity"] * df["price"]\<close>.\<close>

definition total_sales :: "'a silver_row_scheme \<Rightarrow> rat" where
  "total_sales r = of_int (quantity r) * price r"

definition mean :: "rat list \<Rightarrow> rat" where
  "mean xs = sum_list xs / of_nat (length xs)"

text \<open>
  \<^verbatim>\<open>df.sort_values(by=..., ascending=False)\<close>: the rows taken in the order of the index
  permutation that the sorting routine returns for the key column.
\<close>

definition sort_values_desc :: "env \<Rightarrow> ('r \<Rightarrow> int) \<Rightarrow> 'r list \<Rightarrow> 'r list" where
  "sort_values_desc e key df = map (\<lambda>i. df ! i) (argsort_desc e (map key df))"

definition process_total_sales :: "db \<Rightarrow> error + db" where
  "process_total_sales d =
     (case load_from_db (silver_sales d) of
        Inl err \<Rightarrow> Inl err
      | Inr df \<Rightarrow>
          (case write_to_db (groupby_agg customer_id (\<lambda>g. sum_list (map total_sales g)) df)
                  (gold_total_sales_by_customer d) Replace of
             Inl err \<Rightarrow> Inl err
           | Inr t \<Rightarrow> Inr (d\<lparr>gold_total_sales_by_customer := t\<rparr>)))"

definition process_avg_order_quantity :: "db \<Rightarrow> error + db" where
  "process_avg_order_quantity d =
     (case load_from_db (silver_sales d) of
        Inl err \<Rightarrow> Inl err
      | Inr df \<Rightarrow>
          (case write_to_db (groupby_agg product_id (\<lambda>g. mean (map (\<lambda>r. of_int (quantity r)) g)) df)
                  (gold_avg_order_quantity_per_product d) Replace of
             Inl err \<Rightarrow> Inl err
           | Inr t \<Rightarrow> Inr (d\<lparr>gold_avg_order_quantity_per_product := t\<rparr>)))"

definition process_top_selling_products :: "env \<Rightarrow> db \<Rightarrow> error + db" where
  "process_top_selling_products e d =
     (case load_from_db (silver_sales d) of
        Inl err \<Rightarrow> Inl err
      | Inr df \<Rightarrow>
          (case write_to_db
                  (sort_values_desc e snd
                     (groupby_agg product_id (\<lambda>g. sum_list (map quantity g)) df))
                  (gold_top_selling_products d) Replace of
             Inl err \<Rightarrow> Inl err
           | Inr t \<Rightarrow> Inr (d\<lparr>gold_top_selling_products := t\<rparr>)))"

definition process_top_selling_customers :: "env \<Rightarrow> db \<Rightarrow> error + db" where
  "process_top_selling_customers e d =
     (case load_from_db (silver_sales d) of
        Inl err \<Rightarrow> Inl err
      | Inr df \<Rightarrow>
          (case write_to_db
                  (sort_values_desc e snd
                     (groupby_agg customer_id (\<lambda>g. sum_list (map quantity g)) df))
                  (gold_top_selling_customers d) Replace of
             Inl err \<Rightarrow> Inl err
           | Inr t \<Rightarrow> Inr (d\<lparr>gold_top_selling_customers := t\<rparr>)))"

text \<open>
  \<^verbatim>\<open>pd.to_datetime\<close> on the \<^verbatim>\<open>order_date\<close> strings. The model reads calendar dates written
  \<^verbatim>\<open>YYYY-MM-DD\<close> and reports every other string as unparseable; pandas accepts further
  formats, about which nothing is proved here.
\<close>

record timestamp =
  year :: int
  month :: int
  day :: int

definition digit :: "char \<Rightarrow> int option" where
  "digit c =
     (if CHR ''0'' \<le> c \<and> c \<le> CHR ''9'' then Some (int (of_char c) - 48) else None)"

fun number :: "int \<Rightarrow> string \<Rightarrow> int option" where
  "number acc [] = Some acc"
| "number acc (c # cs) =
     (case digit c of None \<Rightarrow> None | Some v \<Rightarrow> number (10 * acc + v) cs)"

definition is_leap :: "int \<Rightarrow> bool" where
  "is_leap y \<longleftrightarrow> y mod 4 = 0 \<and> (y mod 100 \<noteq> 0 \<or> y mod 400 = 0)"

definition days_in_month :: "int \<Rightarrow> int \<Rightarrow> int" where
  "days_in_month y m =
     (if m = 2 then (if is_leap y then 29 else 28)
      else if m = 4 \<or> m = 6 \<or> m = 9 \<or> m = 11 then 30 else 31)"

definition to_datetime :: "string \<Rightarrow> timestamp option" where
  "to_datetime s =
     (if length s = 10 \<and> s ! 4 = CHR ''-'' \<and> s ! 7 = CHR ''-'' then
        (case (number 0 (take 4 s), number 0 (take 2 (drop 5 s)), number 0 (drop 8 s)) of
           (Some y, Some m, Some d) \<Rightarrow>
             if 1 \<le> m \<and> m \<le> 12 \<and> 1 \<le> d \<and> d \<le> days_in_month y m
             then Some \<lparr>year = y, month = m, day = d\<rparr> else None
         | _ \<Rightarrow> None)
      else None)"

text \<open>The conversion of the whole column: one unparseable entry raises.\<close>

fun to_datetime_column :: "string list \<Rightarrow> error + timestamp list" where
  "to_datetime_column [] = Inr []"
| "to_datetime_column (s # ss) =
     (case to_datetime s of
        None \<Rightarrow> Inl ValueError
      | Some t \<Rightarrow>
          (case to_datetime_column ss of Inl err \<Rightarrow> Inl err | Inr ts \<Rightarrow> Inr (t # ts)))"

text \<open>\<^verbatim>\<open>.dt.quarter\<close>.\<close>

definition quarter :: "timestamp \<Rightarrow> int" where
  "quarter t = (month t - 1) div 3 + 1"

text \<open>
  The frame of the two trend tasks after their column assignments: each silver row beside
  its converted \<^verbatim>\<open>order_date\<close>.
\<close>

definition with_order_date :: "silver_row list \<Rightarrow> error + (silver_row \<times> timestamp) list" where
  "with_order_date df =
     (case to_datetime_column (map order_date df) of
        Inl err \<Rightarrow> Inl err
      | Inr ts \<Rightarrow> Inr (zip df ts))"

definition sum_quantity_total_sales :: "(silver_row \<times> timestamp) list \<Rightarrow> int \<times> rat" where
  "sum_quantity_total_sales g =
     (sum_list (map (\<lambda>p. quantity (fst p)) g), sum_list (map (\<lambda>p. total_sales (fst p)) g))"

definition process_sales_trends_monthly :: "db \<Rightarrow> error + db" where
  "process_sales_trends_monthly d =
     (case load_from_db (silver_sales d) of
        Inl err \<Rightarrow> Inl err
      | Inr df \<Rightarrow>
          (case with_order_date df of
             Inl err \<Rightarrow> Inl err
           | Inr dated \<Rightarrow>
               (case write_to_db
                       (groupby_agg (\<lambda>p. (year (snd p), month (snd p))) sum_quantity_total_sales dated)
                       (gold_sales_trends_monthly d) Replace of
                  Inl err \<Rightarrow> Inl err
                | Inr t \<Rightarrow> Inr (d\<lparr>gold_sales_trends_monthly := t\<rparr>))))"

definition process_sales_trends_quarterly :: "db \<Rightarrow> error + db" where
  "process_sales_trends_quarterly d =
     (case load_from_db (silver_sales d) of
        Inl err \<Rightarrow> Inl err
      | Inr df \<Rightarrow>
          (case with_order_date df of
             Inl err \<Rightarrow> Inl err
           | Inr dated \<Rightarrow>
               (case write_to_db
                       (groupby_agg (\<lambda>p. (year (snd p), quarter (snd p))) sum_quantity_total_sales dated)
                       (gold_sales_trends_quarterly d) Replace of
                  Inl err \<Rightarrow> Inl err
                | Inr t \<Rightarrow> Inr (d\<lparr>gold_sales_trends_quarterly := t\<rparr>))))"

definition process_sales_per_weather_condition :: "db \<Rightarrow> error + db" where
  "process_sales_per_weather_condition d =
     (case load_from_db (silver_sales d) of
        Inl err \<Rightarrow> Inl err
      | Inr df \<Rightarrow>
          (case write_to_db (groupby_agg weather_description (\<lambda>g. mean (map total_sales g)) df)
                  (gold_sales_per_weather_condition d) Replace of
             Inl err \<Rightarrow> Inl err
           | Inr t \<Rightarrow> Inr (d\<lparr>gold_sales_per_weather_condition := t\<rparr>)))"

text \<open>\<^verbatim>\<open>test_connection\<close> runs \<^verbatim>\<open>SELECT 1\<close> and prints the result.\<close>

definition test_connection :: "db \<Rightarrow> error + db" where
  "test_connection d = Inr d"

subsection \<open>The task graph\<close>

text \<open>The twelve \<^verbatim>\<open>PythonOperator\<close>s, named by their \<^verbatim>\<open>task_id\<close>.\<close>

datatype task =
  T_test_connection
  | T_extract_customer_from_api
  | T_extract_weather_from_api
  | T_load_orders_csv_file
  | T_etl_sales
  | T_process_total_sales
  | T_process_avg_order_quantity
  | T_process_top_selling_products
  | T_process_top_selling_customers
  | T_process_sales_trends_monthly
  | T_process_sales_trends_quarterly
  | T_process_sales_per_weather_condition

fun python_callable :: "env \<Rightarrow> task \<Rightarrow> db \<Rightarrow> error + db" where
  "python_callable e T_test_connection = test_connection"
| "python_callable e T_extract_customer_from_api = fetch_transform_write e"
| "python_callable e T_extract_weather_from_api = fetch_weather e"
| "python_callable e T_load_orders_csv_file = load_csv e"
| "python_callable e T_etl_sales = etl_sales"
| "python_callable e T_process_total_sales = process_total_sales"
| "python_callable e T_process_avg_order_quantity = process_avg_order_quantity"
| "python_callable e T_process_top_selling_products = process_top_selling_products e"
| "python_callable e T_process_top_selling_customers = process_top_selling_customers e"
| "python_callable e T_process_sales_trends_monthly = process_sales_trends_monthly"
| "python_callable e T_process_sales_trends_quarterly = process_sales_trends_quarterly"
| "python_callable e T_process_sales_per_weather_condition = process_sales_per_weather_condition"

text \<open>\<^verbatim>\<open>a >> b\<close> and \<^verbatim>\<open>a >> [b, c, ...]\<close>: every task on the right becomes downstream of \<open>a\<close>.\<close>

definition rshift :: "task \<Rightarrow> task list \<Rightarrow> (task \<times> task) list" where
  "rshift a bs = map (\<lambda>b. (a, b)) bs"

definition bronze_tasks :: "task list" where
  "bronze_tasks =
     [T_extract_customer_from_api, T_extract_weather_from_api, T_load_orders_csv_file]"

definition gold_tasks :: "task list" where
  "gold_tasks =
     [T_process_total_sales, T_process_avg_order_quantity, T_process_top_selling_products,
      T_process_top_selling_customers, T_process_sales_trends_monthly,
      T_process_sales_trends_quarterly, T_process_sales_per_weather_condition]"

text \<open>The last two statements of the module.\<close>

definition dag_edges :: "(task \<times> task) list" where
  "dag_edges =
     rshift T_test_connection [T_extract_customer_from_api]
     @ rshift T_extract_customer_from_api [T_extract_weather_from_api]
     @ rshift T_extract_weather_from_api [T_load_orders_csv_file]
     @ rshift T_load_orders_csv_file [T_etl_sales]
     @ rshift T_etl_sales gold_tasks"

definition upstream_list :: "task \<Rightarrow> task list" where
  "upstream_list t = map fst (filter (\<lambda>edge. snd edge = t) dag_edges)"

text \<open>
  A run of the DAG. The tasks that are running, those that have succeeded, those that have
  failed, and the database they share.
\<close>

record run_state =
  running :: "task set"
  succeeded :: "task set"
  failed :: "task set"
  store :: db

definition dag_start :: "db \<Rightarrow> run_state" where
  "dag_start d = \<lparr>running = {}, succeeded = {}, failed = {}, store = d\<rparr>"

definition started :: "run_state \<Rightarrow> task set" where
  "started s = running s \<union> succeeded s \<union> failed s"

datatype event = Start task | Finish task

text \<open>
  The scheduler that executes the declared graph is Airflow's. None of the operators sets a
  \<^verbatim>\<open>trigger_rule\<close>, so the default \<^verbatim>\<open>all_success\<close> applies: a task starts only after every task
  directly upstream of it has succeeded; each task runs once in a run; tasks without a
  path between them may run at the same time. Section 5 of the spec states the same rule.
  A task's effect on the database is applied when it finishes; a task that raises writes
  nothing, the single write being its last statement.
\<close>

fun dag_step :: "env \<Rightarrow> run_state \<Rightarrow> event \<Rightarrow> run_state option" where
  "dag_step e s (Start t) =
     (if t \<notin> started s \<and> set (upstream_list t) \<subseteq> succeeded s
      then Some (s\<lparr>running := insert t (running s)\<rparr>)
      else None)"
| "dag_step e s (Finish t) =
     (if t \<in> running s then
        (case python_callable e t (store s) of
           Inl err \<Rightarrow> Some (s\<lparr>running := running s - {t}, failed := insert t (failed s)\<rparr>)
         | Inr d \<Rightarrow>
             Some (s\<lparr>running := running s - {t}, succeeded := insert t (succeeded s),
                     store := d\<rparr>))
      else None)"

fun dag_run :: "env \<Rightarrow> run_state \<Rightarrow> event list \<Rightarrow> run_state option" where
  "dag_run e s [] = Some s"
| "dag_run e s (ev # evs) =
     (case dag_step e s ev of None \<Rightarrow> None | Some s' \<Rightarrow> dag_run e s' evs)"

subsection \<open>Notions used to state the properties\<close>



text \<open>A lookup succeeds when the API answers it with status 200.\<close>

definition lookup_succeeds :: "env \<Rightarrow> customer_row \<Rightarrow> bool" where
  "lookup_succeeds e c \<longleftrightarrow>
     (case weather_api e (c_address_geo_lat c) (c_address_geo_lng c) of
        Inl err \<Rightarrow> False
      | Inr r \<Rightarrow> status_code r = 200)"



text \<open>In every state of a run, what has started has its upstream tasks succeeded.\<close>

definition upstream_done :: "run_state \<Rightarrow> bool" where
  "upstream_done s \<longleftrightarrow>
     (\<forall>t u. t \<in> started s \<and> u \<in> set (upstream_list t) \<longrightarrow> u \<in> succeeded s)"

datatype table_name =
  Bronze_customers | Bronze_orders | Bronze_weather | Silver_sales
  | Gold_total_sales_by_customer | Gold_avg_order_quantity_per_product
  | Gold_top_selling_products | Gold_top_selling_customers
  | Gold_sales_trends_monthly | Gold_sales_trends_quarterly
  | Gold_sales_per_weather_condition

fun same_table :: "table_name \<Rightarrow> db \<Rightarrow> db \<Rightarrow> bool" where
  "same_table Bronze_customers d d' \<longleftrightarrow> bronze_customers d = bronze_customers d'"
| "same_table Bronze_orders d d' \<longleftrightarrow> bronze_orders d = bronze_orders d'"
| "same_table Bronze_weather d d' \<longleftrightarrow> bronze_weather d = bronze_weather d'"
| "same_table Silver_sales d d' \<longleftrightarrow> silver_sales d = silver_sales d'"
| "same_table Gold_total_sales_by_customer d d' \<longleftrightarrow>
     gold_total_sales_by_customer d = gold_total_sales_by_customer d'"
| "same_table Gold_avg_order_quantity_per_product d d' \<longleftrightarrow>
     gold_avg_order_quantity_per_product d = gold_avg_order_quantity_per_product d'"
| "same_table Gold_top_selling_products d d' \<longleftrightarrow>
     gold_top_selling_products d = gold_top_selling_products d'"
| "same_table Gold_top_selling_customers d d' \<longleftrightarrow>
     gold_top_selling_customers d = gold_top_selling_customers d'"
| "same_table Gold_sales_trends_monthly d d' \<longleftrightarrow>
     gold_sales_trends_monthly d = gold_sales_trends_monthly d'"
| "same_table Gold_sales_trends_quarterly d d' \<longleftrightarrow>
     gold_sales_trends_quarterly d = gold_sales_trends_quarterly d'"
| "same_table Gold_sales_per_weather_condition d d' \<longleftrightarrow>
     gold_sales_per_weather_condition d = gold_sales_per_weather_condition d'"

fun table_exists :: "table_name \<Rightarrow> db \<Rightarrow> bool" where
  "table_exists Bronze_customers d \<longleftrightarrow> bronze_customers d \<noteq> None"
| "table_exists Bronze_orders d \<longleftrightarrow> bronze_orders d \<noteq> None"
| "table_exists Bronze_weather d \<longleftrightarrow> bronze_weather d \<noteq> None"
| "table_exists Silver_sales d \<longleftrightarrow> silver_sales d \<noteq> None"
| "table_exists Gold_total_sales_by_customer d \<longleftrightarrow> gold_total_sales_by_customer d \<noteq> None"
| "table_exists Gold_avg_order_quantity_per_product d \<longleftrightarrow>
     gold_avg_order_quantity_per_product d \<noteq> None"
| "table_exists Gold_top_selling_products d \<longleftrightarrow> gold_top_selling_products d \<noteq> None"
| "table_exists Gold_top_selling_customers d \<longleftrightarrow> gold_top_selling_customers d \<noteq> None"
| "table_exists Gold_sales_trends_monthly d \<longleftrightarrow> gold_sales_trends_monthly d \<noteq> None"
| "table_exists Gold_sales_trends_quarterly d \<longleftrightarrow> gold_sales_trends_quarterly d \<noteq> None"
| "table_exists Gold_sales_per_weather_condition d \<longleftrightarrow>
     gold_sales_per_weather_condition d \<noteq> None"

text \<open>The tables a task reads (\<^verbatim>\<open>load_from_db\<close>) and the table it writes (\<^verbatim>\<open>write_to_db\<close>).\<close>

fun reads :: "task \<Rightarrow> table_name list" where
  "reads T_test_connection = []"
| "reads T_extract_customer_from_api = []"
| "reads T_extract_weather_from_api = [Bronze_customers]"
| "reads T_load_orders_csv_file = []"
| "reads T_etl_sales = [Bronze_orders, Bronze_customers, Bronze_weather]"
| "reads t = [Silver_sales]"

fun writes :: "task \<Rightarrow> table_name option" where
  "writes T_test_connection = None"
| "writes T_extract_customer_from_api = Some Bronze_customers"
| "writes T_extract_weather_from_api = Some Bronze_weather"
| "writes T_load_orders_csv_file = Some Bronze_orders"
| "writes T_etl_sales = Some Silver_sales"
| "writes T_process_total_sales = Some Gold_total_sales_by_customer"
| "writes T_process_avg_order_quantity = Some Gold_avg_order_quantity_per_product"
| "writes T_process_top_selling_products = Some Gold_top_selling_products"
| "writes T_process_top_selling_customers = Some Gold_top_selling_customers"
| "writes T_process_sales_trends_monthly = Some Gold_sales_trends_monthly"
| "writes T_process_sales_trends_quarterly = Some Gold_sales_trends_quarterly"
| "writes T_process_sales_per_weather_condition = Some Gold_sales_per_weather_condition"

text \<open>
  The invariant of a run: started tasks have their upstream succeeded, no task is both
  running and succeeded, and every succeeded task would reproduce the stored tables.
\<close>

definition up_to_date :: "env \<Rightarrow> run_state \<Rightarrow> bool" where
  "up_to_date e s \<longleftrightarrow>
     upstream_done s \<and> running s \<inter> succeeded s = {}
     \<and> (\<forall>t \<in> succeeded s. python_callable e t (store s) = Inr (store s))"

text \<open>
  A run under the sources that produced the database \<open>D\<close>: the table of every succeeded
  task is the one \<open>D\<close> holds, whatever the database held when the run began.
\<close>

definition agrees_with :: "db \<Rightarrow> run_state \<Rightarrow> bool" where
  "agrees_with D s \<longleftrightarrow>
     upstream_done s \<and> running s \<inter> succeeded s = {}
     \<and> (\<forall>t \<in> succeeded s. \<forall>n. writes t = Some n \<longrightarrow> same_table n (store s) D)"

text \<open>
  Modelled from the spec: the ordering that sections 1 and 8 of the spec require of any task
  graph, to compare the declared graph with. Extraction completes before reconciliation
  starts, reconciliation completes before an aggregation starts, and (section 4.3) the
  weather extractor reads the customers the customer extractor wrote. Nothing orders
  customer extraction and order loading.
\<close>

fun spec_upstream :: "task \<Rightarrow> task list" where
  "spec_upstream T_test_connection = []"
| "spec_upstream T_extract_customer_from_api = []"
| "spec_upstream T_extract_weather_from_api = [T_extract_customer_from_api]"
| "spec_upstream T_load_orders_csv_file = []"
| "spec_upstream T_etl_sales = bronze_tasks"
| "spec_upstream g = [T_etl_sales]"

fun spec_step :: "env \<Rightarrow> run_state \<Rightarrow> event \<Rightarrow> run_state option" where
  "spec_step e s (Start t) =
     (if t \<notin> started s \<and> set (spec_upstream t) \<subseteq> succeeded s
      then Some (s\<lparr>running := insert t (running s)\<rparr>)
      else None)"
| "spec_step e s (Finish t) = dag_step e s (Finish t)"

fun spec_run :: "env \<Rightarrow> run_state \<Rightarrow> event list \<Rightarrow> run_state option" where
  "spec_run e s [] = Some s"
| "spec_run e s (ev # evs) =
     (case spec_step e s ev of None \<Rightarrow> None | Some s' \<Rightarrow> spec_run e s' evs)"

subsection \<open>Example data\<close>

definition empty_db :: db where
  "empty_db =
     \<lparr>bronze_customers = None, bronze_orders = None, bronze_weather = None,
      silver_sales = None, gold_total_sales_by_customer = None,
      gold_avg_order_quantity_per_product = None, gold_top_selling_products = None,
      gold_top_selling_customers = None, gold_sales_trends_monthly = None,
      gold_sales_trends_quarterly = None, gold_sales_per_weather_condition = None\<rparr>"

definition example_row :: "int \<Rightarrow> string \<Rightarrow> int \<Rightarrow> rat \<Rightarrow> string \<Rightarrow> string \<Rightarrow> silver_row" where
  "example_row c p q pr dt descr =
     \<lparr>customer_id = c, product_id = p, quantity = q, price = pr, order_date = dt,
      customer_name = ''Leanne Graham'', address_geo_lat = ''-37.3159'',
      address_geo_lng = ''81.1496'', weather_description = descr, main_temp = 280,
      main_feels_like = 279, main_humidity = 80, wind_speed = 3, clouds_all = 0\<rparr>"




definition example_customer :: "int \<Rightarrow> customer_row" where
  "example_customer i =
     \<lparr>c_id = i, c_name = ''Leanne Graham'', c_address_geo_lat = ''-37.3159'',
      c_address_geo_lng = ''81.1496''\<rparr>"

definition example_weather :: "int \<Rightarrow> weather_row" where
  "example_weather i =
     \<lparr>w_customer_id = i, w_weather_description = ''clear sky'', w_main_temp = 280,
      w_main_feels_like = 279, w_main_humidity = 80, w_wind_speed = 3, w_clouds_all = 0\<rparr>"

definition example_order :: "int \<Rightarrow> string \<Rightarrow> int \<Rightarrow> rat \<Rightarrow> string \<Rightarrow> order_row" where
  "example_order c p q pr dt =
     \<lparr>customer_id = c, product_id = p, quantity = q, price = pr, order_date = dt\<rparr>"

definition bronze_example :: "order_row list \<Rightarrow> int list \<Rightarrow> int list \<Rightarrow> db" where
  "bronze_example os cs ws =
     empty_db\<lparr>bronze_customers := Some (map example_customer cs), bronze_orders := Some os,
              bronze_weather := Some (map example_weather ws)\<rparr>"

definition join_example_orders :: "order_row list" where
  "join_example_orders =
     [example_order 1 ''A'' 2 10 ''2024-02-15'', example_order 2 ''A'' 1 10 ''2024-02-16'',
      example_order 3 ''B'' 4 5 ''2024-02-17'']"


definition example_json :: weather_json where
  "example_json =
     \<lparr>j_weather = [''clear sky''], j_main_temp = 280, j_main_feels_like = 279,
      j_main_humidity = 80, j_wind_speed = 3, j_clouds_all = 0\<rparr>"

text \<open>A weather API that answers every lookup with the status \<open>code\<close>.\<close>

definition weather_status :: "int \<Rightarrow> string \<Rightarrow> string \<Rightarrow> error + response" where
  "weather_status code lat lon = Inr \<lparr>status_code = code, json = example_json\<rparr>"

text \<open>A stable descending order of the keys: ties keep their positions' order.\<close>

definition stable_argsort_desc :: "int list \<Rightarrow> nat list" where
  "stable_argsort_desc ks = sort_key (\<lambda>i. - (ks ! i)) [0..<length ks]"

definition example_env :: "int list \<Rightarrow> (string \<Rightarrow> string \<Rightarrow> error + response) \<Rightarrow> order_row list \<Rightarrow> env" where
  "example_env users weather orders =
     \<lparr>users_api = Inr (map example_customer users), weather_api = weather,
      sales_data_csv = Inr orders, argsort_desc = stable_argsort_desc\<rparr>"




definition full_run :: "event list" where
  "full_run =
     [Start T_test_connection, Finish T_test_connection,
      Start T_extract_customer_from_api, Finish T_extract_customer_from_api,
      Start T_extract_weather_from_api, Finish T_extract_weather_from_api,
      Start T_load_orders_csv_file, Finish T_load_orders_csv_file,
      Start T_etl_sales, Finish T_etl_sales]
     @ map Start gold_tasks @ map Finish gold_tasks"

definition run_env :: env where
  "run_env = example_env [1, 2] (weather_status 200) join_example_orders"

definition run_silver :: "silver_row list" where
  "run_silver =
     [example_row 1 ''A'' 2 10 ''2024-02-15'' ''clear sky'',
      example_row 2 ''A'' 1 10 ''2024-02-16'' ''clear sky'']"

definition run_final_db :: db where
  "run_final_db =
     \<lparr>bronze_customers = Some (map example_customer [1, 2]),
      bronze_orders = Some join_example_orders,
      bronze_weather = Some (map example_weather [1, 2]),
      silver_sales = Some run_silver,
      gold_total_sales_by_customer = Some [(1, 20), (2, 10)],
      gold_avg_order_quantity_per_product = Some [(''A'', 3 / 2)],
      gold_top_selling_products = Some [(''A'', 3)],
      gold_top_selling_customers = Some [(1, 2), (2, 1)],
      gold_sales_trends_monthly = Some [((2024, 2), 3, 30)],
      gold_sales_trends_quarterly = Some [((2024, 1), 3, 30)],
      gold_sales_per_weather_condition = Some [(''clear sky'', 15)]\<rparr>"

definition concurrent_run :: "event list" where
  "concurrent_run =
     [Start T_test_connection, Finish T_test_connection,
      Start T_extract_customer_from_api, Finish T_extract_customer_from_api,
      Start T_extract_weather_from_api, Finish T_extract_weather_from_api,
      Start T_load_orders_csv_file, Finish T_load_orders_csv_file,
      Start T_etl_sales, Finish T_etl_sales]
     @ map Start gold_tasks"

definition run_silver_db :: db where
  "run_silver_db =
     empty_db\<lparr>bronze_customers := Some (map example_customer [1, 2]),
              bronze_orders := Some join_example_orders,
              bronze_weather := Some (map example_weather [1, 2]),
              silver_sales := Some run_silver\<rparr>"

section \<open>Properties\<close>

subsection \<open>Helper facts about the storage helpers and \<^verbatim>\<open>groupby\<close>\<close>

lemma write_to_db_Replace: "write_to_db df table Replace = Inr (Some df)"
  by (simp add: write_to_db_def to_sql_def split: option.splits)




subsection \<open>Total sales per customer\<close>



subsection \<open>Sales trends\<close>








subsection \<open>Sales per weather condition\<close>



subsection \<open>The join of \<^verbatim>\<open>etl_sales\<close>\<close>

lemma etl_sales_Some:
  assumes "bronze_orders d = Some os" "bronze_customers d = Some cs" "bronze_weather d = Some ws"
  shows "etl_sales d = Inr (d\<lparr>silver_sales := Some (etl_query os cs ws)\<rparr>)"
  using assms by (simp add: etl_sales_def write_to_db_Replace)

lemma set_etl_query:
  "set (etl_query os cs ws) =
     {silver_of od c w | od c w. od \<in> set os \<and> c \<in> set cs \<and> w \<in> set ws
        \<and> c_id c = customer_id od \<and> w_customer_id w = customer_id od}"
  by (auto simp: etl_query_def)

lemma customer_id_silver_of [simp]: "customer_id (silver_of od c w) = customer_id od"
  by (simp add: silver_of_def)

lemma product_id_silver_of [simp]: "product_id (silver_of od c w) = product_id od"
  by (simp add: silver_of_def)

lemma customers_of_etl_query:
  "C \<in> customer_id ` set (etl_query os cs ws) \<longleftrightarrow>
     C \<in> customer_id ` set os \<and> C \<in> c_id ` set cs \<and> C \<in> w_customer_id ` set ws"
proof
  assume "C \<in> customer_id ` set (etl_query os cs ws)"
  then obtain od c w where "od \<in> set os" "c \<in> set cs" "w \<in> set ws"
    "c_id c = customer_id od" "w_customer_id w = customer_id od" "C = customer_id od"
    unfolding set_etl_query by auto
  then show "C \<in> customer_id ` set os \<and> C \<in> c_id ` set cs \<and> C \<in> w_customer_id ` set ws"
    by (metis imageI)
next
  assume "C \<in> customer_id ` set os \<and> C \<in> c_id ` set cs \<and> C \<in> w_customer_id ` set ws"
  then obtain od c w where *: "od \<in> set os" "c \<in> set cs" "w \<in> set ws"
    "c_id c = C" "w_customer_id w = C" "customer_id od = C"
    by auto
  from * have "c_id c = customer_id od" "w_customer_id w = customer_id od" by simp_all
  with *(1-3) have "silver_of od c w \<in> set (etl_query os cs ws)"
    unfolding set_etl_query by blast
  then have "customer_id (silver_of od c w) \<in> customer_id ` set (etl_query os cs ws)"
    by (rule imageI)
  with * show "C \<in> customer_id ` set (etl_query os cs ws)" by simp
qed

lemma etl_query_concat:
  "etl_query os cs ws = concat (map (\<lambda>od. etl_query [od] cs ws) os)"
  by (simp add: etl_query_def)

lemma etl_query_dropped:
  assumes "customer_id od \<notin> c_id ` set cs \<or> customer_id od \<notin> w_customer_id ` set ws"
  shows "etl_query [od] cs ws = []"
proof -
  have "set (etl_query [od] cs ws) = {}"
    unfolding set_etl_query using assms by (auto simp: image_iff)
  then show ?thesis by simp
qed

text \<open>
  C1, amended. When the three bronze tables exist, \<^verbatim>\<open>etl_sales\<close> replaces \<^verbatim>\<open>silver_sales\<close> by
  the inner join of \<^verbatim>\<open>bronze_orders\<close> with \<^verbatim>\<open>bronze_customers\<close> and \<^verbatim>\<open>bronze_weather\<close> on the
  customer id. A customer id appears in \<^verbatim>\<open>silver_sales\<close> if and only if it has a row in
  \<^verbatim>\<open>bronze_orders\<close>, in \<^verbatim>\<open>bronze_customers\<close> and in \<^verbatim>\<open>bronze_weather\<close>. The silver rows are the
  rows each order contributes, and an order whose customer id is missing from
  \<^verbatim>\<open>bronze_customers\<close> or from \<^verbatim>\<open>bronze_weather\<close> contributes none.
\<close>

theorem etl_sales_inner_join:
  assumes "bronze_orders d = Some os" and "bronze_customers d = Some cs"
    and "bronze_weather d = Some ws"
  shows "\<exists>silver. etl_sales d = Inr (d\<lparr>silver_sales := Some silver\<rparr>)
    \<and> set silver =
        {silver_of od c w | od c w. od \<in> set os \<and> c \<in> set cs \<and> w \<in> set ws
           \<and> c_id c = customer_id od \<and> w_customer_id w = customer_id od}
    \<and> (\<forall>C. C \<in> customer_id ` set silver \<longleftrightarrow>
          C \<in> customer_id ` set os \<and> C \<in> c_id ` set cs \<and> C \<in> w_customer_id ` set ws)
    \<and> silver = concat (map (\<lambda>od. etl_query [od] cs ws) os)
    \<and> (\<forall>od \<in> set os.
          customer_id od \<notin> c_id ` set cs \<or> customer_id od \<notin> w_customer_id ` set ws
          \<longrightarrow> etl_query [od] cs ws = [])"
proof (intro exI conjI allI ballI impI)
  show "etl_sales d = Inr (d\<lparr>silver_sales := Some (etl_query os cs ws)\<rparr>)"
    using assms by (rule etl_sales_Some)
  show "set (etl_query os cs ws) =
        {silver_of od c w | od c w. od \<in> set os \<and> c \<in> set cs \<and> w \<in> set ws
           \<and> c_id c = customer_id od \<and> w_customer_id w = customer_id od}"
    by (rule set_etl_query)
  show "C \<in> customer_id ` set (etl_query os cs ws) \<longleftrightarrow>
          C \<in> customer_id ` set os \<and> C \<in> c_id ` set cs \<and> C \<in> w_customer_id ` set ws" for C
    by (rule customers_of_etl_query)
  show "etl_query os cs ws = concat (map (\<lambda>od. etl_query [od] cs ws) os)"
    by (rule etl_query_concat)
  show "etl_query [od] cs ws = []"
    if "customer_id od \<notin> c_id ` set cs \<or> customer_id od \<notin> w_customer_id ` set ws" for od
    using that by (rule etl_query_dropped)
qed

theorem etl_sales_inner_join_witness:
  "bronze_orders (bronze_example join_example_orders [1, 2, 3] [1, 3]) = Some join_example_orders
   \<and> bronze_customers (bronze_example join_example_orders [1, 2, 3] [1, 3])
       = Some (map example_customer [1, 2, 3])
   \<and> bronze_weather (bronze_example join_example_orders [1, 2, 3] [1, 3])
       = Some (map example_weather [1, 3])
   \<and> etl_sales (bronze_example join_example_orders [1, 2, 3] [1, 3])
       = Inr ((bronze_example join_example_orders [1, 2, 3] [1, 3])
            \<lparr>silver_sales := Some [example_row 1 ''A'' 2 10 ''2024-02-15'' ''clear sky'',
                                    example_row 3 ''B'' 4 5 ''2024-02-17'' ''clear sky'']\<rparr>)"
proof -
  let ?d = "bronze_example join_example_orders [1, 2, 3] [1, 3]"
  have h1: "bronze_orders ?d = Some join_example_orders"
    and h2: "bronze_customers ?d = Some (map example_customer [1, 2, 3])"
    and h3: "bronze_weather ?d = Some (map example_weather [1, 3])"
    by (simp_all add: bronze_example_def)
  from etl_sales_inner_join [OF h1 h2 h3] obtain silver where
    run: "etl_sales ?d = Inr (?d\<lparr>silver_sales := Some silver\<rparr>)"
    and rows: "silver = concat (map (\<lambda>od. etl_query [od] (map example_customer [1, 2, 3])
        (map example_weather [1, 3])) join_example_orders)"
    by (elim exE conjE)
  have "silver = [example_row 1 ''A'' 2 10 ''2024-02-15'' ''clear sky'',
                  example_row 3 ''B'' 4 5 ''2024-02-17'' ''clear sky'']"
    unfolding rows
    by (simp add: join_example_orders_def etl_query_def example_order_def example_customer_def
        example_weather_def example_row_def silver_of_def)
  with run h1 h2 h3 show ?thesis by simp
qed

text \<open>
  The claim as the spec words it (a customer appears if and only if it has a row in both
  \<^verbatim>\<open>bronze_customers\<close> and \<^verbatim>\<open>bronze_weather\<close>) fails for a customer without an order: customer 2
  below has a customer row and a weather row and is absent from \<^verbatim>\<open>silver_sales\<close>.
\<close>

theorem etl_sales_customers_counterexample:
  "etl_sales (bronze_example [example_order 1 ''A'' 2 10 ''2024-02-15''] [1, 2] [1, 2])
     = Inr ((bronze_example [example_order 1 ''A'' 2 10 ''2024-02-15''] [1, 2] [1, 2])
          \<lparr>silver_sales := Some [example_row 1 ''A'' 2 10 ''2024-02-15'' ''clear sky'']\<rparr>)
   \<and> 2 \<in> c_id ` set (map example_customer [1, 2])
   \<and> 2 \<in> w_customer_id ` set (map example_weather [1, 2])
   \<and> 2 \<notin> customer_id ` set [example_row 1 ''A'' 2 10 ''2024-02-15'' ''clear sky'']"
  by (simp add: etl_sales_def bronze_example_def write_to_db_Replace etl_query_def
      example_order_def example_customer_def example_weather_def example_row_def silver_of_def)

subsection \<open>The index columns of \<^verbatim>\<open>silver_sales\<close>\<close>







subsection \<open>Weather lookups that fail\<close>

lemma apply_get_weather_Inr:
  assumes "\<forall>c \<in> set cs. \<exists>r. weather_api e (c_address_geo_lat c) (c_address_geo_lng c) = Inr r"
  shows "\<exists>ws. apply_get_weather e cs = Inr ws
    \<and> map fst (filter_None ws) = map c_id (filter (lookup_succeeds e) cs)
    \<and> (\<forall>p \<in> set (filter_None ws). \<exists>c \<in> set cs. \<exists>r.
          weather_api e (c_address_geo_lat c) (c_address_geo_lng c) = Inr r
          \<and> status_code r = 200 \<and> snd p = json r)"
  using assms
proof (induction cs)
  case Nil
  then show ?case by simp
next
  case (Cons c cs)
  then obtain ws where ws: "apply_get_weather e cs = Inr ws"
    and ids: "map fst (filter_None ws) = map c_id (filter (lookup_succeeds e) cs)"
    and bodies: "\<forall>p \<in> set (filter_None ws). \<exists>c \<in> set cs. \<exists>r.
          weather_api e (c_address_geo_lat c) (c_address_geo_lng c) = Inr r
          \<and> status_code r = 200 \<and> snd p = json r"
    by auto
  from Cons.prems obtain r where r: "weather_api e (c_address_geo_lat c) (c_address_geo_lng c) = Inr r"
    by auto
  show ?case
  proof (cases "status_code r = 200")
    case True
    with r ws have "apply_get_weather e (c # cs) = Inr (Some (c_id c, json r) # ws)"
      by (simp add: get_weather_def)
    moreover have "map fst (filter_None (Some (c_id c, json r) # ws))
        = map c_id (filter (lookup_succeeds e) (c # cs))"
      using True r ids by (simp add: lookup_succeeds_def)
    moreover have "\<forall>p \<in> set (filter_None (Some (c_id c, json r) # ws)). \<exists>c' \<in> set (c # cs). \<exists>r.
          weather_api e (c_address_geo_lat c') (c_address_geo_lng c') = Inr r
          \<and> status_code r = 200 \<and> snd p = json r"
      using True r bodies by auto
    ultimately show ?thesis by blast
  next
    case False
    with r ws have "apply_get_weather e (c # cs) = Inr (None # ws)"
      by (simp add: get_weather_def)
    moreover have "map fst (filter_None (None # ws))
        = map c_id (filter (lookup_succeeds e) (c # cs))"
      using False r ids by (simp add: lookup_succeeds_def)
    moreover have "\<forall>p \<in> set (filter_None (None # ws)). \<exists>c' \<in> set (c # cs). \<exists>r.
          weather_api e (c_address_geo_lat c') (c_address_geo_lng c') = Inr r
          \<and> status_code r = 200 \<and> snd p = json r"
      using bodies by auto
    ultimately show ?thesis by blast
  qed
qed

lemma unwrap_weather_Inr:
  assumes "\<forall>p \<in> set ds. j_weather (snd p) \<noteq> []"
  shows "\<exists>rows. unwrap_weather ds = Inr rows \<and> map w_customer_id rows = map fst ds"
  using assms
proof (induction ds)
  case Nil
  then show ?case by simp
next
  case (Cons p ds)
  then obtain rows where "unwrap_weather ds = Inr rows" "map w_customer_id rows = map fst ds"
    by auto
  moreover from Cons.prems obtain descr rest where "j_weather (snd p) = descr # rest"
    by (cases "j_weather (snd p)") auto
  ultimately show ?case by (cases p) simp
qed

text \<open>
  When every lookup is answered, every body answered with status 200 lists a weather
  condition, and at least one lookup succeeds, the task succeeds and \<^verbatim>\<open>bronze_weather\<close> holds
  one row for each customer whose lookup returned status 200, tagged with that customer's
  id, in the order of \<^verbatim>\<open>bronze_customers\<close>; the other customers have no row.
\<close>

lemma fetch_weather_drops_failed_lookups:
  assumes cs: "bronze_customers d = Some cs"
    and api: "\<forall>c \<in> set cs. \<exists>r. weather_api e (c_address_geo_lat c) (c_address_geo_lng c) = Inr r
        \<and> (status_code r = 200 \<longrightarrow> j_weather (json r) \<noteq> [])"
    and one: "\<exists>c \<in> set cs. lookup_succeeds e c"
  shows "\<exists>rows. fetch_weather e d = Inr (d\<lparr>bronze_weather := Some rows\<rparr>)
    \<and> map w_customer_id rows = map c_id (filter (lookup_succeeds e) cs)"
proof -
  from api have "\<forall>c \<in> set cs. \<exists>r. weather_api e (c_address_geo_lat c) (c_address_geo_lng c) = Inr r"
    by blast
  from apply_get_weather_Inr [OF this] obtain ws where ws: "apply_get_weather e cs = Inr ws"
    and ids: "map fst (filter_None ws) = map c_id (filter (lookup_succeeds e) cs)"
    and bodies: "\<forall>p \<in> set (filter_None ws). \<exists>c \<in> set cs. \<exists>r.
          weather_api e (c_address_geo_lat c) (c_address_geo_lng c) = Inr r
          \<and> status_code r = 200 \<and> snd p = json r"
    by blast
  have "\<forall>p \<in> set (filter_None ws). j_weather (snd p) \<noteq> []"
  proof
    fix p assume "p \<in> set (filter_None ws)"
    with bodies obtain c r where "c \<in> set cs"
      "weather_api e (c_address_geo_lat c) (c_address_geo_lng c) = Inr r"
      "status_code r = 200" "snd p = json r"
      by blast
    with api show "j_weather (snd p) \<noteq> []" by fastforce
  qed
  from unwrap_weather_Inr [OF this] obtain rows where rows: "unwrap_weather (filter_None ws) = Inr rows"
    and tags: "map w_customer_id rows = map fst (filter_None ws)"
    by blast
  from one have "filter (lookup_succeeds e) cs \<noteq> []"
    by (auto simp: filter_empty_conv)
  with ids tags have "rows \<noteq> []" by auto
  with cs ws rows have "fetch_weather e d = Inr (d\<lparr>bronze_weather := Some rows\<rparr>)"
    by (simp add: fetch_weather_def load_from_db_def set_index_normalized_def write_to_db_Replace)
  with ids tags show ?thesis by auto
qed

text \<open>
  C3, where the code departs from it. \<^verbatim>\<open>bronze_customers\<close> holds one customer and the
  weather API answers the lookup with status 401, so \<^verbatim>\<open>get_weather\<close> returns \<^verbatim>\<open>None\<close> and the
  customer is dropped. The claim has the task succeed with a \<^verbatim>\<open>bronze_weather\<close> that holds
  exactly the customers whose lookups succeeded, here none. The task raises \<^verbatim>\<open>KeyError\<close>
  instead: \<^verbatim>\<open>pd.json_normalize([])\<close> has no \<^verbatim>\<open>customer_id\<close> column for \<^verbatim>\<open>set_index\<close>.
\<close>

theorem fetch_weather_all_lookups_fail:
  "fetch_weather (example_env [1] (weather_status 401) [])
     (empty_db\<lparr>bronze_customers := Some [example_customer 1]\<rparr>) = Inl KeyError"
  by (simp add: fetch_weather_def load_from_db_def get_weather_def example_env_def
      weather_status_def set_index_normalized_def)

subsection \<open>Top-selling products\<close>









subsection \<open>Runs of the task graph\<close>

lemma upstream_list_simps [simp]:
  "upstream_list T_test_connection = []"
  "upstream_list T_extract_customer_from_api = [T_test_connection]"
  "upstream_list T_extract_weather_from_api = [T_extract_customer_from_api]"
  "upstream_list T_load_orders_csv_file = [T_extract_weather_from_api]"
  "upstream_list T_etl_sales = [T_load_orders_csv_file]"
  "upstream_list T_process_total_sales = [T_etl_sales]"
  "upstream_list T_process_avg_order_quantity = [T_etl_sales]"
  "upstream_list T_process_top_selling_products = [T_etl_sales]"
  "upstream_list T_process_top_selling_customers = [T_etl_sales]"
  "upstream_list T_process_sales_trends_monthly = [T_etl_sales]"
  "upstream_list T_process_sales_trends_quarterly = [T_etl_sales]"
  "upstream_list T_process_sales_per_weather_condition = [T_etl_sales]"
  by (simp_all add: upstream_list_def dag_edges_def rshift_def gold_tasks_def)

lemma upstream_done_start: "upstream_done (dag_start d)"
  by (simp add: upstream_done_def dag_start_def started_def)

lemma dag_step_Start:
  assumes "dag_step e s (Start t) = Some s'"
  shows "t \<notin> started s" and "set (upstream_list t) \<subseteq> succeeded s"
    and "s' = s\<lparr>running := insert t (running s)\<rparr>"
  using assms by (simp_all split: if_splits)

lemma dag_step_Finish:
  assumes "dag_step e s (Finish t) = Some s'"
  shows "t \<in> running s"
    and "(\<exists>err. python_callable e t (store s) = Inl err
            \<and> s' = s\<lparr>running := running s - {t}, failed := insert t (failed s)\<rparr>)
       \<or> (\<exists>d. python_callable e t (store s) = Inr d
            \<and> s' = s\<lparr>running := running s - {t}, succeeded := insert t (succeeded s),
                      store := d\<rparr>)"
proof -
  show run: "t \<in> running s"
    using assms by (simp split: if_splits)
  show "(\<exists>err. python_callable e t (store s) = Inl err
            \<and> s' = s\<lparr>running := running s - {t}, failed := insert t (failed s)\<rparr>)
       \<or> (\<exists>d. python_callable e t (store s) = Inr d
            \<and> s' = s\<lparr>running := running s - {t}, succeeded := insert t (succeeded s),
                      store := d\<rparr>)"
  proof (cases "python_callable e t (store s)")
    case (Inl err)
    with assms run show ?thesis by simp
  next
    case (Inr d)
    with assms run show ?thesis by simp
  qed
qed

lemma dag_step_upstream_done:
  assumes "dag_step e s ev = Some s'" and "upstream_done s"
  shows "upstream_done s'"
proof (cases ev)
  case (Start t)
  note step = dag_step_Start [OF assms(1) [unfolded Start]]
  have eq: "started s' = insert t (started s)" "succeeded s' = succeeded s"
    by (simp_all add: step(3) started_def)
  from assms(2) step(2) show ?thesis
    unfolding upstream_done_def eq by auto
next
  case (Finish t)
  note step = dag_step_Finish [OF assms(1) [unfolded Finish]]
  from step(2) have eq: "started s' = started s \<and> succeeded s \<subseteq> succeeded s'"
  proof (elim disjE exE conjE)
    fix err
    assume "s' = s\<lparr>running := running s - {t}, failed := insert t (failed s)\<rparr>"
    with step(1) show ?thesis by (auto simp: started_def)
  next
    fix d
    assume "s' = s\<lparr>running := running s - {t}, succeeded := insert t (succeeded s), store := d\<rparr>"
    with step(1) show ?thesis by (auto simp: started_def)
  qed
  from eq have "started s' = started s" and sub: "succeeded s \<subseteq> succeeded s'"
    by simp_all
  from assms(2) sub show ?thesis
    unfolding upstream_done_def \<open>started s' = started s\<close> by auto
qed

lemma dag_run_upstream_done:
  "dag_run e s evs = Some s' \<Longrightarrow> upstream_done s \<Longrightarrow> upstream_done s'"
proof (induction evs arbitrary: s)
  case Nil
  then show ?case by simp
next
  case (Cons ev evs)
  from Cons.prems(1) obtain s1 where s1: "dag_step e s ev = Some s1"
    and rest: "dag_run e s1 evs = Some s'"
    by (auto split: option.splits)
  from s1 Cons.prems(2) have "upstream_done s1"
    by (rule dag_step_upstream_done)
  with rest show ?case by (rule Cons.IH)
qed

lemma same_table_all: "(\<And>n. same_table n d d') \<Longrightarrow> d = d'"
proof -
  assume a: "\<And>n. same_table n d d'"
  have "bronze_customers d = bronze_customers d'" using a [of Bronze_customers] by simp
  moreover have "bronze_orders d = bronze_orders d'" using a [of Bronze_orders] by simp
  moreover have "bronze_weather d = bronze_weather d'" using a [of Bronze_weather] by simp
  moreover have "silver_sales d = silver_sales d'" using a [of Silver_sales] by simp
  moreover have "gold_total_sales_by_customer d = gold_total_sales_by_customer d'"
    using a [of Gold_total_sales_by_customer] by simp
  moreover have "gold_avg_order_quantity_per_product d = gold_avg_order_quantity_per_product d'"
    using a [of Gold_avg_order_quantity_per_product] by simp
  moreover have "gold_top_selling_products d = gold_top_selling_products d'"
    using a [of Gold_top_selling_products] by simp
  moreover have "gold_top_selling_customers d = gold_top_selling_customers d'"
    using a [of Gold_top_selling_customers] by simp
  moreover have "gold_sales_trends_monthly d = gold_sales_trends_monthly d'"
    using a [of Gold_sales_trends_monthly] by simp
  moreover have "gold_sales_trends_quarterly d = gold_sales_trends_quarterly d'"
    using a [of Gold_sales_trends_quarterly] by simp
  moreover have "gold_sales_per_weather_condition d = gold_sales_per_weather_condition d'"
    using a [of Gold_sales_per_weather_condition] by simp
  ultimately show "d = d'" by simp
qed

text \<open>What a successful task leaves behind: only its own table changed, and that table exists.\<close>

lemma fetch_transform_write_Inr:
  "fetch_transform_write e d = Inr d' \<Longrightarrow> \<exists>x. d' = d\<lparr>bronze_customers := Some x\<rparr>"
  by (auto simp: fetch_transform_write_def set_index_normalized_def write_to_db_Replace
      split: sum.splits if_splits)

lemma load_csv_Inr:
  "load_csv e d = Inr d' \<Longrightarrow> \<exists>x. d' = d\<lparr>bronze_orders := Some x\<rparr>"
  by (auto simp: load_csv_def write_to_db_Replace split: sum.splits)

lemma fetch_weather_Inr:
  "fetch_weather e d = Inr d' \<Longrightarrow> \<exists>x. d' = d\<lparr>bronze_weather := Some x\<rparr>"
  by (auto simp: fetch_weather_def set_index_normalized_def write_to_db_Replace
      split: sum.splits if_splits)

lemma etl_sales_Inr:
  "etl_sales d = Inr d' \<Longrightarrow> \<exists>x. d' = d\<lparr>silver_sales := Some x\<rparr>"
  by (auto simp: etl_sales_def write_to_db_Replace split: option.splits)

lemma process_total_sales_Inr:
  "process_total_sales d = Inr d' \<Longrightarrow> \<exists>x. d' = d\<lparr>gold_total_sales_by_customer := Some x\<rparr>"
  by (auto simp: process_total_sales_def write_to_db_Replace split: sum.splits)

lemma process_avg_order_quantity_Inr:
  "process_avg_order_quantity d = Inr d' \<Longrightarrow> \<exists>x. d' = d\<lparr>gold_avg_order_quantity_per_product := Some x\<rparr>"
  by (auto simp: process_avg_order_quantity_def write_to_db_Replace split: sum.splits)

lemma process_top_selling_products_Inr:
  "process_top_selling_products e d = Inr d' \<Longrightarrow> \<exists>x. d' = d\<lparr>gold_top_selling_products := Some x\<rparr>"
  by (auto simp: process_top_selling_products_def write_to_db_Replace split: sum.splits)

lemma process_top_selling_customers_Inr:
  "process_top_selling_customers e d = Inr d' \<Longrightarrow> \<exists>x. d' = d\<lparr>gold_top_selling_customers := Some x\<rparr>"
  by (auto simp: process_top_selling_customers_def write_to_db_Replace split: sum.splits)

lemma process_sales_trends_monthly_Inr:
  "process_sales_trends_monthly d = Inr d' \<Longrightarrow> \<exists>x. d' = d\<lparr>gold_sales_trends_monthly := Some x\<rparr>"
  by (auto simp: process_sales_trends_monthly_def write_to_db_Replace split: sum.splits)

lemma process_sales_trends_quarterly_Inr:
  "process_sales_trends_quarterly d = Inr d' \<Longrightarrow> \<exists>x. d' = d\<lparr>gold_sales_trends_quarterly := Some x\<rparr>"
  by (auto simp: process_sales_trends_quarterly_def write_to_db_Replace split: sum.splits)

lemma process_sales_per_weather_condition_Inr:
  "process_sales_per_weather_condition d = Inr d' \<Longrightarrow> \<exists>x. d' = d\<lparr>gold_sales_per_weather_condition := Some x\<rparr>"
  by (auto simp: process_sales_per_weather_condition_def write_to_db_Replace split: sum.splits)

text \<open>What a task writes depends on the tables it reads and on nothing else of the database.\<close>

lemma fetch_transform_write_determined:
  "fetch_transform_write e d1 = Inr d1' \<Longrightarrow>
     \<exists>d2'. fetch_transform_write e d2 = Inr d2' \<and> bronze_customers d2' = bronze_customers d1'"
  by (auto simp: fetch_transform_write_def set_index_normalized_def write_to_db_Replace
      split: sum.splits if_splits)

lemma load_csv_determined:
  "load_csv e d1 = Inr d1' \<Longrightarrow>
     \<exists>d2'. load_csv e d2 = Inr d2' \<and> bronze_orders d2' = bronze_orders d1'"
  by (auto simp: load_csv_def write_to_db_Replace split: sum.splits)

lemma fetch_weather_determined:
  "bronze_customers d1 = bronze_customers d2 \<Longrightarrow> fetch_weather e d1 = Inr d1' \<Longrightarrow>
     \<exists>d2'. fetch_weather e d2 = Inr d2' \<and> bronze_weather d2' = bronze_weather d1'"
  by (auto simp: fetch_weather_def set_index_normalized_def write_to_db_Replace
      split: sum.splits if_splits)

lemma etl_sales_determined:
  "bronze_orders d1 = bronze_orders d2 \<Longrightarrow> bronze_customers d1 = bronze_customers d2 \<Longrightarrow>
   bronze_weather d1 = bronze_weather d2 \<Longrightarrow> etl_sales d1 = Inr d1' \<Longrightarrow>
     \<exists>d2'. etl_sales d2 = Inr d2' \<and> silver_sales d2' = silver_sales d1'"
  by (auto simp: etl_sales_def write_to_db_Replace split: option.splits)

lemma process_total_sales_determined:
  "silver_sales d1 = silver_sales d2 \<Longrightarrow> process_total_sales d1 = Inr d1' \<Longrightarrow>
     \<exists>d2'. process_total_sales d2 = Inr d2' \<and> gold_total_sales_by_customer d2' = gold_total_sales_by_customer d1'"
  by (auto simp: process_total_sales_def write_to_db_Replace split: sum.splits)

lemma process_avg_order_quantity_determined:
  "silver_sales d1 = silver_sales d2 \<Longrightarrow> process_avg_order_quantity d1 = Inr d1' \<Longrightarrow>
     \<exists>d2'. process_avg_order_quantity d2 = Inr d2' \<and> gold_avg_order_quantity_per_product d2' = gold_avg_order_quantity_per_product d1'"
  by (auto simp: process_avg_order_quantity_def write_to_db_Replace split: sum.splits)

lemma process_top_selling_products_determined:
  "silver_sales d1 = silver_sales d2 \<Longrightarrow> process_top_selling_products e d1 = Inr d1' \<Longrightarrow>
     \<exists>d2'. process_top_selling_products e d2 = Inr d2' \<and> gold_top_selling_products d2' = gold_top_selling_products d1'"
  by (auto simp: process_top_selling_products_def write_to_db_Replace split: sum.splits)

lemma process_top_selling_customers_determined:
  "silver_sales d1 = silver_sales d2 \<Longrightarrow> process_top_selling_customers e d1 = Inr d1' \<Longrightarrow>
     \<exists>d2'. process_top_selling_customers e d2 = Inr d2' \<and> gold_top_selling_customers d2' = gold_top_selling_customers d1'"
  by (auto simp: process_top_selling_customers_def write_to_db_Replace split: sum.splits)

lemma process_sales_trends_monthly_determined:
  "silver_sales d1 = silver_sales d2 \<Longrightarrow> process_sales_trends_monthly d1 = Inr d1' \<Longrightarrow>
     \<exists>d2'. process_sales_trends_monthly d2 = Inr d2' \<and> gold_sales_trends_monthly d2' = gold_sales_trends_monthly d1'"
  by (auto simp: process_sales_trends_monthly_def write_to_db_Replace split: sum.splits)

lemma process_sales_trends_quarterly_determined:
  "silver_sales d1 = silver_sales d2 \<Longrightarrow> process_sales_trends_quarterly d1 = Inr d1' \<Longrightarrow>
     \<exists>d2'. process_sales_trends_quarterly d2 = Inr d2' \<and> gold_sales_trends_quarterly d2' = gold_sales_trends_quarterly d1'"
  by (auto simp: process_sales_trends_quarterly_def write_to_db_Replace split: sum.splits)

lemma process_sales_per_weather_condition_determined:
  "silver_sales d1 = silver_sales d2 \<Longrightarrow> process_sales_per_weather_condition d1 = Inr d1' \<Longrightarrow>
     \<exists>d2'. process_sales_per_weather_condition d2 = Inr d2' \<and> gold_sales_per_weather_condition d2' = gold_sales_per_weather_condition d1'"
  by (auto simp: process_sales_per_weather_condition_def write_to_db_Replace split: sum.splits)

lemma same_table_refl [simp]: "same_table n d d"
  by (cases n) simp_all

lemma same_table_sym: "same_table n d d' \<Longrightarrow> same_table n d' d"
  by (cases n) simp_all

lemma same_table_trans: "same_table n d d' \<Longrightarrow> same_table n d' d'' \<Longrightarrow> same_table n d d''"
  by (cases n) simp_all

lemma python_callable_frame:
  assumes "python_callable e t d = Inr d'" and "writes t \<noteq> Some n"
  shows "same_table n d d'"
proof (cases t)
  case T_test_connection
  with assms show ?thesis by (simp add: test_connection_def)
next
  case T_extract_customer_from_api
  with assms(1) have "fetch_transform_write e d = Inr d'" by simp
  from fetch_transform_write_Inr [OF this] obtain x where "d' = d\<lparr>bronze_customers := Some x\<rparr>" ..
  with assms(2) T_extract_customer_from_api show ?thesis by (cases n) simp_all
next
  case T_extract_weather_from_api
  with assms(1) have "fetch_weather e d = Inr d'" by simp
  from fetch_weather_Inr [OF this] obtain x where "d' = d\<lparr>bronze_weather := Some x\<rparr>" ..
  with assms(2) T_extract_weather_from_api show ?thesis by (cases n) simp_all
next
  case T_load_orders_csv_file
  with assms(1) have "load_csv e d = Inr d'" by simp
  from load_csv_Inr [OF this] obtain x where "d' = d\<lparr>bronze_orders := Some x\<rparr>" ..
  with assms(2) T_load_orders_csv_file show ?thesis by (cases n) simp_all
next
  case T_etl_sales
  with assms(1) have "etl_sales d = Inr d'" by simp
  from etl_sales_Inr [OF this] obtain x where "d' = d\<lparr>silver_sales := Some x\<rparr>" ..
  with assms(2) T_etl_sales show ?thesis by (cases n) simp_all
next
  case T_process_total_sales
  with assms(1) have "process_total_sales d = Inr d'" by simp
  from process_total_sales_Inr [OF this] obtain x where "d' = d\<lparr>gold_total_sales_by_customer := Some x\<rparr>" ..
  with assms(2) T_process_total_sales show ?thesis by (cases n) simp_all
next
  case T_process_avg_order_quantity
  with assms(1) have "process_avg_order_quantity d = Inr d'" by simp
  from process_avg_order_quantity_Inr [OF this] obtain x where "d' = d\<lparr>gold_avg_order_quantity_per_product := Some x\<rparr>" ..
  with assms(2) T_process_avg_order_quantity show ?thesis by (cases n) simp_all
next
  case T_process_top_selling_products
  with assms(1) have "process_top_selling_products e d = Inr d'" by simp
  from process_top_selling_products_Inr [OF this] obtain x where "d' = d\<lparr>gold_top_selling_products := Some x\<rparr>" ..
  with assms(2) T_process_top_selling_products show ?thesis by (cases n) simp_all
next
  case T_process_top_selling_customers
  with assms(1) have "process_top_selling_customers e d = Inr d'" by simp
  from process_top_selling_customers_Inr [OF this] obtain x where "d' = d\<lparr>gold_top_selling_customers := Some x\<rparr>" ..
  with assms(2) T_process_top_selling_customers show ?thesis by (cases n) simp_all
next
  case T_process_sales_trends_monthly
  with assms(1) have "process_sales_trends_monthly d = Inr d'" by simp
  from process_sales_trends_monthly_Inr [OF this] obtain x where "d' = d\<lparr>gold_sales_trends_monthly := Some x\<rparr>" ..
  with assms(2) T_process_sales_trends_monthly show ?thesis by (cases n) simp_all
next
  case T_process_sales_trends_quarterly
  with assms(1) have "process_sales_trends_quarterly d = Inr d'" by simp
  from process_sales_trends_quarterly_Inr [OF this] obtain x where "d' = d\<lparr>gold_sales_trends_quarterly := Some x\<rparr>" ..
  with assms(2) T_process_sales_trends_quarterly show ?thesis by (cases n) simp_all
next
  case T_process_sales_per_weather_condition
  with assms(1) have "process_sales_per_weather_condition d = Inr d'" by simp
  from process_sales_per_weather_condition_Inr [OF this] obtain x where "d' = d\<lparr>gold_sales_per_weather_condition := Some x\<rparr>" ..
  with assms(2) T_process_sales_per_weather_condition show ?thesis by (cases n) simp_all
qed

lemma python_callable_writes:
  assumes "python_callable e t d = Inr d'" and "writes t = Some n"
  shows "table_exists n d'"
proof (cases t)
  case T_test_connection
  with assms show ?thesis by simp
next
  case T_extract_customer_from_api
  with assms(1) have "fetch_transform_write e d = Inr d'" by simp
  from fetch_transform_write_Inr [OF this] obtain x where "d' = d\<lparr>bronze_customers := Some x\<rparr>" ..
  with assms(2) T_extract_customer_from_api show ?thesis by auto
next
  case T_extract_weather_from_api
  with assms(1) have "fetch_weather e d = Inr d'" by simp
  from fetch_weather_Inr [OF this] obtain x where "d' = d\<lparr>bronze_weather := Some x\<rparr>" ..
  with assms(2) T_extract_weather_from_api show ?thesis by auto
next
  case T_load_orders_csv_file
  with assms(1) have "load_csv e d = Inr d'" by simp
  from load_csv_Inr [OF this] obtain x where "d' = d\<lparr>bronze_orders := Some x\<rparr>" ..
  with assms(2) T_load_orders_csv_file show ?thesis by auto
next
  case T_etl_sales
  with assms(1) have "etl_sales d = Inr d'" by simp
  from etl_sales_Inr [OF this] obtain x where "d' = d\<lparr>silver_sales := Some x\<rparr>" ..
  with assms(2) T_etl_sales show ?thesis by auto
next
  case T_process_total_sales
  with assms(1) have "process_total_sales d = Inr d'" by simp
  from process_total_sales_Inr [OF this] obtain x where "d' = d\<lparr>gold_total_sales_by_customer := Some x\<rparr>" ..
  with assms(2) T_process_total_sales show ?thesis by auto
next
  case T_process_avg_order_quantity
  with assms(1) have "process_avg_order_quantity d = Inr d'" by simp
  from process_avg_order_quantity_Inr [OF this] obtain x where "d' = d\<lparr>gold_avg_order_quantity_per_product := Some x\<rparr>" ..
  with assms(2) T_process_avg_order_quantity show ?thesis by auto
next
  case T_process_top_selling_products
  with assms(1) have "process_top_selling_products e d = Inr d'" by simp
  from process_top_selling_products_Inr [OF this] obtain x where "d' = d\<lparr>gold_top_selling_products := Some x\<rparr>" ..
  with assms(2) T_process_top_selling_products show ?thesis by auto
next
  case T_process_top_selling_customers
  with assms(1) have "process_top_selling_customers e d = Inr d'" by simp
  from process_top_selling_customers_Inr [OF this] obtain x where "d' = d\<lparr>gold_top_selling_customers := Some x\<rparr>" ..
  with assms(2) T_process_top_selling_customers show ?thesis by auto
next
  case T_process_sales_trends_monthly
  with assms(1) have "process_sales_trends_monthly d = Inr d'" by simp
  from process_sales_trends_monthly_Inr [OF this] obtain x where "d' = d\<lparr>gold_sales_trends_monthly := Some x\<rparr>" ..
  with assms(2) T_process_sales_trends_monthly show ?thesis by auto
next
  case T_process_sales_trends_quarterly
  with assms(1) have "process_sales_trends_quarterly d = Inr d'" by simp
  from process_sales_trends_quarterly_Inr [OF this] obtain x where "d' = d\<lparr>gold_sales_trends_quarterly := Some x\<rparr>" ..
  with assms(2) T_process_sales_trends_quarterly show ?thesis by auto
next
  case T_process_sales_per_weather_condition
  with assms(1) have "process_sales_per_weather_condition d = Inr d'" by simp
  from process_sales_per_weather_condition_Inr [OF this] obtain x where "d' = d\<lparr>gold_sales_per_weather_condition := Some x\<rparr>" ..
  with assms(2) T_process_sales_per_weather_condition show ?thesis by auto
qed

lemma python_callable_determined:
  assumes "\<forall>n \<in> set (reads t). same_table n d1 d2"
    and "python_callable e t d1 = Inr d1'"
  shows "\<exists>d2'. python_callable e t d2 = Inr d2'
    \<and> (\<forall>n. writes t = Some n \<longrightarrow> same_table n d2' d1')"
proof (cases t)
  case T_test_connection
  then show ?thesis by (simp add: test_connection_def)
next
  case T_extract_customer_from_api
  with assms(2) have "fetch_transform_write e d1 = Inr d1'" by simp
  from fetch_transform_write_determined [OF this, of d2] T_extract_customer_from_api show ?thesis by simp
next
  case T_extract_weather_from_api
  with assms have "bronze_customers d1 = bronze_customers d2" and "fetch_weather e d1 = Inr d1'" by simp_all
  from fetch_weather_determined [OF this] T_extract_weather_from_api show ?thesis by simp
next
  case T_load_orders_csv_file
  with assms(2) have "load_csv e d1 = Inr d1'" by simp
  from load_csv_determined [OF this, of d2] T_load_orders_csv_file show ?thesis by simp
next
  case T_etl_sales
  with assms have "bronze_orders d1 = bronze_orders d2" and "bronze_customers d1 = bronze_customers d2"
    and "bronze_weather d1 = bronze_weather d2" and "etl_sales d1 = Inr d1'" by simp_all
  from etl_sales_determined [OF this] T_etl_sales show ?thesis by simp
next
  case T_process_total_sales
  with assms have "silver_sales d1 = silver_sales d2" and "process_total_sales d1 = Inr d1'" by simp_all
  from process_total_sales_determined [OF this] T_process_total_sales show ?thesis by simp
next
  case T_process_avg_order_quantity
  with assms have "silver_sales d1 = silver_sales d2" and "process_avg_order_quantity d1 = Inr d1'" by simp_all
  from process_avg_order_quantity_determined [OF this] T_process_avg_order_quantity show ?thesis by simp
next
  case T_process_top_selling_products
  with assms have "silver_sales d1 = silver_sales d2" and "process_top_selling_products e d1 = Inr d1'" by simp_all
  from process_top_selling_products_determined [OF this] T_process_top_selling_products show ?thesis by simp
next
  case T_process_top_selling_customers
  with assms have "silver_sales d1 = silver_sales d2" and "process_top_selling_customers e d1 = Inr d1'" by simp_all
  from process_top_selling_customers_determined [OF this] T_process_top_selling_customers show ?thesis by simp
next
  case T_process_sales_trends_monthly
  with assms have "silver_sales d1 = silver_sales d2" and "process_sales_trends_monthly d1 = Inr d1'" by simp_all
  from process_sales_trends_monthly_determined [OF this] T_process_sales_trends_monthly show ?thesis by simp
next
  case T_process_sales_trends_quarterly
  with assms have "silver_sales d1 = silver_sales d2" and "process_sales_trends_quarterly d1 = Inr d1'" by simp_all
  from process_sales_trends_quarterly_determined [OF this] T_process_sales_trends_quarterly show ?thesis by simp
next
  case T_process_sales_per_weather_condition
  with assms have "silver_sales d1 = silver_sales d2" and "process_sales_per_weather_condition d1 = Inr d1'" by simp_all
  from process_sales_per_weather_condition_determined [OF this] T_process_sales_per_weather_condition show ?thesis by simp
qed

lemma writes_not_read: "writes t = Some n \<Longrightarrow> n \<notin> set (reads t)"
  by (cases t) auto

lemma writes_inj: "writes t = Some n \<Longrightarrow> writes u = Some n \<Longrightarrow> t = u"
  by (cases t; cases u) auto

lemma table_has_writer: "\<exists>t. writes t = Some n"
proof (cases n)
  case Bronze_customers
  then have "writes T_extract_customer_from_api = Some n" by simp
  then show ?thesis ..
next
  case Bronze_orders
  then have "writes T_load_orders_csv_file = Some n" by simp
  then show ?thesis ..
next
  case Bronze_weather
  then have "writes T_extract_weather_from_api = Some n" by simp
  then show ?thesis ..
next
  case Silver_sales
  then have "writes T_etl_sales = Some n" by simp
  then show ?thesis ..
next
  case Gold_total_sales_by_customer
  then have "writes T_process_total_sales = Some n" by simp
  then show ?thesis ..
next
  case Gold_avg_order_quantity_per_product
  then have "writes T_process_avg_order_quantity = Some n" by simp
  then show ?thesis ..
next
  case Gold_top_selling_products
  then have "writes T_process_top_selling_products = Some n" by simp
  then show ?thesis ..
next
  case Gold_top_selling_customers
  then have "writes T_process_top_selling_customers = Some n" by simp
  then show ?thesis ..
next
  case Gold_sales_trends_monthly
  then have "writes T_process_sales_trends_monthly = Some n" by simp
  then show ?thesis ..
next
  case Gold_sales_trends_quarterly
  then have "writes T_process_sales_trends_quarterly = Some n" by simp
  then show ?thesis ..
next
  case Gold_sales_per_weather_condition
  then have "writes T_process_sales_per_weather_condition = Some n" by simp
  then show ?thesis ..
qed

text \<open>The chain of the declared edges, read off the invariant.\<close>

lemma succeeded_started: "t \<in> succeeded s \<Longrightarrow> t \<in> started s"
  by (simp add: started_def)

lemma running_started: "t \<in> running s \<Longrightarrow> t \<in> started s"
  by (simp add: started_def)

lemma chain_weather:
  "upstream_done s \<Longrightarrow> T_extract_weather_from_api \<in> started s \<Longrightarrow>
     T_extract_customer_from_api \<in> succeeded s"
  unfolding upstream_done_def by (metis list.set_intros(1) upstream_list_simps(3))

lemma chain_orders:
  "upstream_done s \<Longrightarrow> T_load_orders_csv_file \<in> started s \<Longrightarrow>
     T_extract_weather_from_api \<in> succeeded s"
  unfolding upstream_done_def by (metis list.set_intros(1) upstream_list_simps(4))

lemma chain_etl:
  "upstream_done s \<Longrightarrow> T_etl_sales \<in> started s \<Longrightarrow> T_load_orders_csv_file \<in> succeeded s"
  unfolding upstream_done_def by (metis list.set_intros(1) upstream_list_simps(5))

lemma chain_gold:
  assumes "upstream_done s" and "g \<in> set gold_tasks" and "g \<in> started s"
  shows "T_etl_sales \<in> succeeded s"
proof -
  from assms(2) have "T_etl_sales \<in> set (upstream_list g)"
    by (auto simp: gold_tasks_def)
  with assms(1,3) show ?thesis
    unfolding upstream_done_def by blast
qed

lemma bronze_before_etl:
  assumes "upstream_done s" and "T_etl_sales \<in> started s"
  shows "T_load_orders_csv_file \<in> succeeded s" and "T_extract_weather_from_api \<in> succeeded s"
    and "T_extract_customer_from_api \<in> succeeded s"
proof -
  show a: "T_load_orders_csv_file \<in> succeeded s"
    using assms by (rule chain_etl)
  show b: "T_extract_weather_from_api \<in> succeeded s"
    using assms(1) a by (intro chain_orders succeeded_started)
  show "T_extract_customer_from_api \<in> succeeded s"
    using assms(1) b by (intro chain_weather succeeded_started)
qed

lemma gold_cases:
  "t \<noteq> T_test_connection \<Longrightarrow> t \<noteq> T_extract_customer_from_api \<Longrightarrow>
   t \<noteq> T_extract_weather_from_api \<Longrightarrow> t \<noteq> T_load_orders_csv_file \<Longrightarrow> t \<noteq> T_etl_sales \<Longrightarrow>
   t \<in> set gold_tasks"
  by (cases t) (simp_all add: gold_tasks_def)

text \<open>Whatever a started task reads was written by a task that has succeeded.\<close>

lemma reads_written:
  assumes inv: "upstream_done s" and t: "t \<in> started s"
    and n: "n \<in> set (reads t)" and u: "writes u = Some n"
  shows "u \<in> succeeded s"
proof -
  consider (weather) "t = T_extract_weather_from_api" | (etl) "t = T_etl_sales"
    | (gold) "t \<in> set gold_tasks"
    | (none) "t = T_test_connection \<or> t = T_extract_customer_from_api \<or> t = T_load_orders_csv_file"
    using gold_cases by blast
  then show ?thesis
  proof cases
    case weather
    with n have "n = Bronze_customers" by simp
    with u have "u = T_extract_customer_from_api" by (cases u) simp_all
    with inv t weather show ?thesis by (simp add: chain_weather)
  next
    case etl
    with n have "n = Bronze_orders \<or> n = Bronze_customers \<or> n = Bronze_weather" by auto
    with u have "u = T_load_orders_csv_file \<or> u = T_extract_customer_from_api
        \<or> u = T_extract_weather_from_api"
      by (cases u) auto
    with bronze_before_etl [OF inv] t etl show ?thesis by auto
  next
    case gold
    with n have "n = Silver_sales" by (auto simp: gold_tasks_def)
    with u have "u = T_etl_sales" by (cases u) simp_all
    with inv t gold show ?thesis by (simp add: chain_gold)
  next
    case none
    with n show ?thesis by auto
  qed
qed

text \<open>Running a task again on its own result changes nothing.\<close>

lemma python_callable_idem:
  assumes "python_callable e u d = Inr d'"
  shows "python_callable e u d' = Inr d'"
proof -
  have "\<forall>n \<in> set (reads u). same_table n d d'"
  proof
    fix n assume "n \<in> set (reads u)"
    then have "writes u \<noteq> Some n" using writes_not_read by blast
    with assms show "same_table n d d'" by (rule python_callable_frame)
  qed
  from python_callable_determined [OF this assms] obtain d2 where
    run: "python_callable e u d' = Inr d2"
    and own: "\<forall>n. writes u = Some n \<longrightarrow> same_table n d2 d'"
    by blast
  have "same_table n d2 d'" for n
  proof (cases "writes u = Some n")
    case True
    with own show ?thesis by blast
  next
    case False
    with run have "same_table n d' d2" by (rule python_callable_frame)
    then show ?thesis by (rule same_table_sym)
  qed
  then have "d2 = d'" by (rule same_table_all)
  with run show ?thesis by simp
qed

text \<open>
  A task whose table is up to date stays so when another task, none of whose output it
  reads, writes its table.
\<close>

lemma python_callable_commute:
  assumes u: "python_callable e u d = Inr d'"
    and t: "python_callable e t d = Inr d"
    and neq: "t \<noteq> u"
    and indep: "\<forall>n \<in> set (reads t). writes u \<noteq> Some n"
  shows "python_callable e t d' = Inr d'"
proof -
  have "\<forall>n \<in> set (reads t). same_table n d d'"
    using u indep by (blast intro: python_callable_frame)
  from python_callable_determined [OF this t] obtain d2 where
    run: "python_callable e t d' = Inr d2"
    and own: "\<forall>n. writes t = Some n \<longrightarrow> same_table n d2 d"
    by blast
  have "same_table n d2 d'" for n
  proof (cases "writes t = Some n")
    case True
    with own have a: "same_table n d2 d" by blast
    from True neq have "writes u \<noteq> Some n" using writes_inj by blast
    with u have "same_table n d d'" by (rule python_callable_frame)
    with a show ?thesis by (rule same_table_trans)
  next
    case False
    with run have "same_table n d' d2" by (rule python_callable_frame)
    then show ?thesis by (rule same_table_sym)
  qed
  then have "d2 = d'" by (rule same_table_all)
  with run show ?thesis by simp
qed

lemma up_to_date_start: "up_to_date e (dag_start d)"
  by (simp add: up_to_date_def upstream_done_start) (simp add: dag_start_def)

lemma dag_step_up_to_date:
  assumes step: "dag_step e s ev = Some s'" and inv: "up_to_date e s"
  shows "up_to_date e s'"
proof -
  from inv have ud: "upstream_done s" and disj: "running s \<inter> succeeded s = {}"
    and fresh: "\<forall>t \<in> succeeded s. python_callable e t (store s) = Inr (store s)"
    by (simp_all add: up_to_date_def)
  from step ud have ud': "upstream_done s'"
    by (rule dag_step_upstream_done)
  show ?thesis
  proof (cases ev)
    case (Start t)
    note st = dag_step_Start [OF step [unfolded Start]]
    from st(1) have "t \<notin> succeeded s" by (simp add: started_def)
    with disj st(3) have "running s' \<inter> succeeded s' = {}" by auto
    moreover from fresh st(3)
    have "\<forall>t \<in> succeeded s'. python_callable e t (store s') = Inr (store s')" by simp
    ultimately show ?thesis using ud' by (simp add: up_to_date_def)
  next
    case (Finish u)
    note fin = dag_step_Finish [OF step [unfolded Finish]]
    from fin(2) show ?thesis
    proof (elim disjE exE conjE)
      fix err
      assume s': "s' = s\<lparr>running := running s - {u}, failed := insert u (failed s)\<rparr>"
      with disj have "running s' \<inter> succeeded s' = {}" by auto
      moreover from fresh s'
      have "\<forall>t \<in> succeeded s'. python_callable e t (store s') = Inr (store s')" by simp
      ultimately show ?thesis using ud' by (simp add: up_to_date_def)
    next
      fix d
      assume run: "python_callable e u (store s) = Inr d"
        and s': "s' = s\<lparr>running := running s - {u}, succeeded := insert u (succeeded s),
                        store := d\<rparr>"
      from s' disj have d': "running s' \<inter> succeeded s' = {}" by auto
      from fin(1) disj have u_new: "u \<notin> succeeded s" by auto
      have "python_callable e t d = Inr d" if t: "t \<in> insert u (succeeded s)" for t
      proof (cases "t = u")
        case True
        with run show ?thesis by (simp add: python_callable_idem)
      next
        case False
        with t have ts: "t \<in> succeeded s" by simp
        with fresh have up: "python_callable e t (store s) = Inr (store s)" by blast
        have "\<forall>n \<in> set (reads t). writes u \<noteq> Some n"
        proof
          fix n assume "n \<in> set (reads t)"
          show "writes u \<noteq> Some n"
          proof
            assume "writes u = Some n"
            with ud ts \<open>n \<in> set (reads t)\<close> have "u \<in> succeeded s"
              by (intro reads_written [of s t n u] succeeded_started)
            with u_new show False by contradiction
          qed
        qed
        with run up False show ?thesis by (rule python_callable_commute)
      qed
      with s' have "\<forall>t \<in> succeeded s'. python_callable e t (store s') = Inr (store s')"
        by simp
      with d' ud' show ?thesis by (simp add: up_to_date_def)
    qed
  qed
qed

lemma dag_run_up_to_date:
  "dag_run e s evs = Some s' \<Longrightarrow> up_to_date e s \<Longrightarrow> up_to_date e s'"
proof (induction evs arbitrary: s)
  case Nil
  then show ?case by simp
next
  case (Cons ev evs)
  from Cons.prems(1) obtain s1 where s1: "dag_step e s ev = Some s1"
    and rest: "dag_run e s1 evs = Some s'"
    by (auto split: option.splits)
  from s1 Cons.prems(2) have "up_to_date e s1"
    by (rule dag_step_up_to_date)
  with rest show ?case by (rule Cons.IH)
qed

lemma succeeded_materialized:
  assumes "up_to_date e s" and "t \<in> succeeded s" and "writes t = Some n"
  shows "table_exists n (store s)"
proof -
  from assms(1,2) have "python_callable e t (store s) = Inr (store s)"
    by (simp add: up_to_date_def)
  then show ?thesis using assms(3) by (rule python_callable_writes)
qed

text \<open>A run on a database that every task reproduces leaves it as it is, and no task fails.\<close>

lemma dag_step_reproduces:
  assumes all: "\<forall>t. python_callable e t D = Inr D"
    and step: "dag_step e s ev = Some s'" and s: "store s = D \<and> failed s = {}"
  shows "store s' = D \<and> failed s' = {}"
proof (cases ev)
  case (Start t)
  from dag_step_Start(3) [OF step [unfolded Start]] s show ?thesis by simp
next
  case (Finish t)
  from all s have "python_callable e t (store s) = Inr D" by simp
  with dag_step_Finish(2) [OF step [unfolded Finish]] s show ?thesis by auto
qed

lemma dag_run_reproduces:
  assumes "\<forall>t. python_callable e t D = Inr D"
  shows "dag_run e s evs = Some s' \<Longrightarrow> store s = D \<and> failed s = {} \<Longrightarrow>
    store s' = D \<and> failed s' = {}"
proof (induction evs arbitrary: s)
  case Nil
  then show ?case by simp
next
  case (Cons ev evs)
  from Cons.prems(1) obtain s1 where s1: "dag_step e s ev = Some s1"
    and rest: "dag_run e s1 evs = Some s'"
    by (auto split: option.splits)
  from assms s1 Cons.prems(2) have "store s1 = D \<and> failed s1 = {}"
    by (rule dag_step_reproduces)
  with rest show ?case by (rule Cons.IH)
qed

lemma run_bronze:
  "fetch_transform_write run_env d = Inr (d\<lparr>bronze_customers := Some (map example_customer [1, 2])\<rparr>)"
  "bronze_customers d = Some (map example_customer [1, 2]) \<Longrightarrow>
     fetch_weather run_env d = Inr (d\<lparr>bronze_weather := Some (map example_weather [1, 2])\<rparr>)"
  "load_csv run_env d = Inr (d\<lparr>bronze_orders := Some join_example_orders\<rparr>)"
  by (simp_all add: run_env_def example_env_def fetch_transform_write_def fetch_weather_def
      load_csv_def set_index_normalized_def write_to_db_Replace load_from_db_def get_weather_def
      weather_status_def example_json_def example_weather_def example_customer_def)

lemma run_etl:
  "bronze_orders d = Some join_example_orders \<Longrightarrow>
   bronze_customers d = Some (map example_customer [1, 2]) \<Longrightarrow>
   bronze_weather d = Some (map example_weather [1, 2]) \<Longrightarrow>
     etl_sales d = Inr (d\<lparr>silver_sales := Some run_silver\<rparr>)"
  by (simp add: etl_sales_def write_to_db_Replace etl_query_def join_example_orders_def
      example_order_def example_customer_def example_weather_def run_silver_def example_row_def
      silver_of_def)

lemma run_gold:
  assumes "silver_sales d = Some run_silver"
  shows "process_total_sales d = Inr (d\<lparr>gold_total_sales_by_customer := Some [(1, 20), (2, 10)]\<rparr>)"
    and "process_avg_order_quantity d
      = Inr (d\<lparr>gold_avg_order_quantity_per_product := Some [(''A'', 3 / 2)]\<rparr>)"
    and "process_top_selling_products run_env d
      = Inr (d\<lparr>gold_top_selling_products := Some [(''A'', 3)]\<rparr>)"
    and "process_top_selling_customers run_env d
      = Inr (d\<lparr>gold_top_selling_customers := Some [(1, 2), (2, 1)]\<rparr>)"
    and "process_sales_trends_monthly d
      = Inr (d\<lparr>gold_sales_trends_monthly := Some [((2024, 2), 3, 30)]\<rparr>)"
    and "process_sales_trends_quarterly d
      = Inr (d\<lparr>gold_sales_trends_quarterly := Some [((2024, 1), 3, 30)]\<rparr>)"
    and "process_sales_per_weather_condition d
      = Inr (d\<lparr>gold_sales_per_weather_condition := Some [(''clear sky'', 15)]\<rparr>)"
proof -
  have dates: "to_datetime_column (map order_date run_silver)
      = Inr [\<lparr>year = 2024, month = 2, day = 15\<rparr>, \<lparr>year = 2024, month = 2, day = 16\<rparr>]"
    by (simp add: run_silver_def example_row_def to_datetime_def digit_def
        days_in_month_def is_leap_def)
  show "process_total_sales d = Inr (d\<lparr>gold_total_sales_by_customer := Some [(1, 20), (2, 10)]\<rparr>)"
    using assms
    by (simp add: process_total_sales_def load_from_db_def write_to_db_Replace groupby_agg_def
        run_silver_def example_row_def total_sales_def)
  show "process_avg_order_quantity d
      = Inr (d\<lparr>gold_avg_order_quantity_per_product := Some [(''A'', 3 / 2)]\<rparr>)"
    using assms
    by (simp add: process_avg_order_quantity_def load_from_db_def write_to_db_Replace
        groupby_agg_def run_silver_def example_row_def mean_def)
  show "process_top_selling_products run_env d
      = Inr (d\<lparr>gold_top_selling_products := Some [(''A'', 3)]\<rparr>)"
    using assms
    by (simp add: process_top_selling_products_def load_from_db_def write_to_db_Replace
        groupby_agg_def run_silver_def example_row_def sort_values_desc_def run_env_def
        example_env_def stable_argsort_desc_def)
  show "process_top_selling_customers run_env d
      = Inr (d\<lparr>gold_top_selling_customers := Some [(1, 2), (2, 1)]\<rparr>)"
    using assms
    by (simp add: process_top_selling_customers_def load_from_db_def write_to_db_Replace
        groupby_agg_def run_silver_def example_row_def sort_values_desc_def run_env_def
        example_env_def stable_argsort_desc_def upt_conv_Cons)
  show "process_sales_trends_monthly d
      = Inr (d\<lparr>gold_sales_trends_monthly := Some [((2024, 2), 3, 30)]\<rparr>)"
    using assms
    by (simp add: process_sales_trends_monthly_def load_from_db_def write_to_db_Replace
        with_order_date_def dates)
      (simp add: run_silver_def example_row_def groupby_agg_def sum_quantity_total_sales_def
        total_sales_def)
  show "process_sales_trends_quarterly d
      = Inr (d\<lparr>gold_sales_trends_quarterly := Some [((2024, 1), 3, 30)]\<rparr>)"
    using assms
    by (simp add: process_sales_trends_quarterly_def load_from_db_def write_to_db_Replace
        with_order_date_def dates)
      (simp add: run_silver_def example_row_def groupby_agg_def sum_quantity_total_sales_def
        total_sales_def quarter_def)
  show "process_sales_per_weather_condition d
      = Inr (d\<lparr>gold_sales_per_weather_condition := Some [(''clear sky'', 15)]\<rparr>)"
    using assms
    by (simp add: process_sales_per_weather_condition_def load_from_db_def write_to_db_Replace
        groupby_agg_def run_silver_def example_row_def mean_def total_sales_def)
qed

lemma UNIV_task:
  "UNIV = {T_test_connection, T_extract_customer_from_api, T_extract_weather_from_api,
     T_load_orders_csv_file, T_etl_sales, T_process_total_sales, T_process_avg_order_quantity,
     T_process_top_selling_products, T_process_top_selling_customers,
     T_process_sales_trends_monthly, T_process_sales_trends_quarterly,
     T_process_sales_per_weather_condition}"
proof -
  have "t \<in> {T_test_connection, T_extract_customer_from_api, T_extract_weather_from_api,
     T_load_orders_csv_file, T_etl_sales, T_process_total_sales, T_process_avg_order_quantity,
     T_process_top_selling_products, T_process_top_selling_customers,
     T_process_sales_trends_monthly, T_process_sales_trends_quarterly,
     T_process_sales_per_weather_condition}" for t
    by (cases t) simp_all
  then show ?thesis by blast
qed

lemma full_run_result:
  "dag_run run_env (dag_start d) full_run
     = Some \<lparr>running = {}, succeeded = UNIV, failed = {}, store = run_final_db\<rparr>"
proof -
  have "dag_run run_env (dag_start d) full_run
     = Some \<lparr>running = {},
         succeeded = {T_process_sales_per_weather_condition,
           T_process_sales_trends_quarterly, T_process_sales_trends_monthly,
           T_process_top_selling_customers, T_process_top_selling_products,
           T_process_avg_order_quantity, T_process_total_sales, T_etl_sales,
           T_load_orders_csv_file, T_extract_weather_from_api,
           T_extract_customer_from_api, T_test_connection},
         failed = {}, store = run_final_db\<rparr>"
    by (cases d)
      (simp add: full_run_def gold_tasks_def dag_start_def started_def run_bronze run_etl
        run_gold run_final_db_def test_connection_def insert_Diff_if)
  also have "{T_process_sales_per_weather_condition,
           T_process_sales_trends_quarterly, T_process_sales_trends_monthly,
           T_process_top_selling_customers, T_process_top_selling_products,
           T_process_avg_order_quantity, T_process_total_sales, T_etl_sales,
           T_load_orders_csv_file, T_extract_weather_from_api,
           T_extract_customer_from_api, T_test_connection} = UNIV"
    unfolding UNIV_task by (simp add: insert_commute)
  finally show ?thesis .
qed

lemma agrees_with_start: "agrees_with D (dag_start d)"
  by (simp add: agrees_with_def upstream_done_start) (simp add: dag_start_def)

lemma dag_step_agrees_with:
  assumes all: "\<forall>t. python_callable e t D = Inr D"
    and step: "dag_step e s ev = Some s'" and inv: "agrees_with D s"
  shows "agrees_with D s'"
proof -
  from inv have ud: "upstream_done s" and disj: "running s \<inter> succeeded s = {}"
    and same: "\<forall>t \<in> succeeded s. \<forall>n. writes t = Some n \<longrightarrow> same_table n (store s) D"
    by (simp_all add: agrees_with_def)
  from step ud have ud': "upstream_done s'"
    by (rule dag_step_upstream_done)
  show ?thesis
  proof (cases ev)
    case (Start t)
    note st = dag_step_Start [OF step [unfolded Start]]
    from st(1) have "t \<notin> succeeded s" by (simp add: started_def)
    with disj st(3) have "running s' \<inter> succeeded s' = {}" by auto
    moreover from same st(3)
    have "\<forall>t \<in> succeeded s'. \<forall>n. writes t = Some n \<longrightarrow> same_table n (store s') D" by simp
    ultimately show ?thesis using ud' by (simp add: agrees_with_def)
  next
    case (Finish u)
    note fin = dag_step_Finish [OF step [unfolded Finish]]
    from fin(2) show ?thesis
    proof (elim disjE exE conjE)
      fix err
      assume s': "s' = s\<lparr>running := running s - {u}, failed := insert u (failed s)\<rparr>"
      with disj have "running s' \<inter> succeeded s' = {}" by auto
      moreover from same s'
      have "\<forall>t \<in> succeeded s'. \<forall>n. writes t = Some n \<longrightarrow> same_table n (store s') D" by simp
      ultimately show ?thesis using ud' by (simp add: agrees_with_def)
    next
      fix d
      assume run: "python_callable e u (store s) = Inr d"
        and s': "s' = s\<lparr>running := running s - {u}, succeeded := insert u (succeeded s),
                        store := d\<rparr>"
      from s' disj have d': "running s' \<inter> succeeded s' = {}" by auto
      from fin(1) disj have u_new: "u \<notin> succeeded s" by auto
      from fin(1) have u_started: "u \<in> started s" by (rule running_started)
      have "same_table n d D" if t: "t \<in> insert u (succeeded s)" and w: "writes t = Some n" for t n
      proof (cases "t = u")
        case True
        have "\<forall>m \<in> set (reads u). same_table m (store s) D"
        proof
          fix m assume m: "m \<in> set (reads u)"
          obtain w where w: "writes w = Some m" using table_has_writer by blast
          with ud u_started m have "w \<in> succeeded s" by (rule reads_written)
          with same w show "same_table m (store s) D" by blast
        qed
        from python_callable_determined [OF this run] obtain d2 where
          "python_callable e u D = Inr d2" and "\<forall>n. writes u = Some n \<longrightarrow> same_table n d2 d"
          by blast
        with all True w have "same_table n D d" by simp
        then show ?thesis by (rule same_table_sym)
      next
        case False
        with t have ts: "t \<in> succeeded s" by simp
        with same w have a: "same_table n (store s) D" by blast
        from False w have "writes u \<noteq> Some n" using writes_inj by blast
        with run have "same_table n (store s) d" by (rule python_callable_frame)
        then have "same_table n d (store s)" by (rule same_table_sym)
        then show ?thesis using a by (rule same_table_trans)
      qed
      with s' have "\<forall>t \<in> succeeded s'. \<forall>n. writes t = Some n \<longrightarrow> same_table n (store s') D"
        by simp
      with d' ud' show ?thesis by (simp add: agrees_with_def)
    qed
  qed
qed

lemma dag_run_agrees_with:
  assumes "\<forall>t. python_callable e t D = Inr D"
  shows "dag_run e s evs = Some s' \<Longrightarrow> agrees_with D s \<Longrightarrow> agrees_with D s'"
proof (induction evs arbitrary: s)
  case Nil
  then show ?case by simp
next
  case (Cons ev evs)
  from Cons.prems(1) obtain s1 where s1: "dag_step e s ev = Some s1"
    and rest: "dag_run e s1 evs = Some s'"
    by (auto split: option.splits)
  from assms s1 Cons.prems(2) have "agrees_with D s1"
    by (rule dag_step_agrees_with)
  with rest show ?case by (rule Cons.IH)
qed

lemma complete_runs_agree:
  assumes run1: "dag_run e (dag_start d0) evs1 = Some s1" and all1: "succeeded s1 = UNIV"
    and run2: "dag_run e (dag_start d0') evs2 = Some s2" and all2: "succeeded s2 = UNIV"
  shows "store s2 = store s1"
proof -
  from run1 have "up_to_date e s1"
    using up_to_date_start by (rule dag_run_up_to_date)
  with all1 have all: "\<forall>t. python_callable e t (store s1) = Inr (store s1)"
    by (simp add: up_to_date_def)
  from dag_run_agrees_with [OF all run2 agrees_with_start]
  have same: "\<forall>t \<in> succeeded s2. \<forall>n. writes t = Some n \<longrightarrow> same_table n (store s2) (store s1)"
    by (simp add: agrees_with_def)
  have "same_table n (store s2) (store s1)" for n
  proof -
    obtain t where "writes t = Some n" using table_has_writer by blast
    with same all2 show ?thesis by simp
  qed
  then show ?thesis by (rule same_table_all)
qed

lemma dag_run_invariant:
  assumes "dag_run e (dag_start d) evs = Some s"
  shows "up_to_date e s"
  using assms up_to_date_start by (rule dag_run_up_to_date)

lemma gold_no_downstream: "g \<in> set gold_tasks \<Longrightarrow> (g, t) \<notin> set dag_edges"
  by (auto simp: gold_tasks_def dag_edges_def rshift_def)

text \<open>
  C2. In every state of a run of the declared graph: an aggregation task has started only
  if \<^verbatim>\<open>etl_sales\<close> has succeeded, and then \<^verbatim>\<open>silver_sales\<close> exists; \<^verbatim>\<open>etl_sales\<close> has started
  only if the three extraction tasks have succeeded, and then their three bronze tables
  exist. Once \<^verbatim>\<open>etl_sales\<close> has succeeded, every aggregation task that has not started may
  start, whatever the other six are doing, and no edge leaves an aggregation task: the
  seven are not ordered among each other. (The run below has all seven running at once.)
\<close>

theorem dag_ordering:
  assumes "dag_run e (dag_start d) evs = Some s"
  shows "(\<forall>g \<in> set gold_tasks. g \<in> started s \<longrightarrow>
            T_etl_sales \<in> succeeded s \<and> table_exists Silver_sales (store s))
    \<and> (T_etl_sales \<in> started s \<longrightarrow>
          set bronze_tasks \<subseteq> succeeded s
          \<and> table_exists Bronze_customers (store s) \<and> table_exists Bronze_weather (store s)
          \<and> table_exists Bronze_orders (store s))
    \<and> (\<forall>g \<in> set gold_tasks. T_etl_sales \<in> succeeded s \<and> g \<notin> started s \<longrightarrow>
          dag_step e s (Start g) = Some (s\<lparr>running := insert g (running s)\<rparr>))
    \<and> (\<forall>g \<in> set gold_tasks. \<forall>t. (g, t) \<notin> set dag_edges)"
proof (intro conjI ballI impI allI)
  from assms have inv: "up_to_date e s" by (rule dag_run_invariant)
  then have ud: "upstream_done s" by (simp add: up_to_date_def)
  {
    fix g assume g: "g \<in> set gold_tasks" "g \<in> started s"
    with ud show etl: "T_etl_sales \<in> succeeded s" by (intro chain_gold)
    with inv show "table_exists Silver_sales (store s)"
      by (intro succeeded_materialized [of e s T_etl_sales]) simp_all
  }
  {
    assume etl: "T_etl_sales \<in> started s"
    note bronze = bronze_before_etl [OF ud etl]
    then show "set bronze_tasks \<subseteq> succeeded s" by (simp add: bronze_tasks_def)
    from inv bronze(3) show "table_exists Bronze_customers (store s)"
      by (intro succeeded_materialized [of e s T_extract_customer_from_api]) simp_all
    from inv bronze(2) show "table_exists Bronze_weather (store s)"
      by (intro succeeded_materialized [of e s T_extract_weather_from_api]) simp_all
    from inv bronze(1) show "table_exists Bronze_orders (store s)"
      by (intro succeeded_materialized [of e s T_load_orders_csv_file]) simp_all
  }
  {
    fix g assume g: "g \<in> set gold_tasks" and "T_etl_sales \<in> succeeded s \<and> g \<notin> started s"
    then have "T_etl_sales \<in> succeeded s" "g \<notin> started s" by simp_all
    moreover from g have "set (upstream_list g) = {T_etl_sales}"
      by (auto simp: gold_tasks_def)
    ultimately show "dag_step e s (Start g) = Some (s\<lparr>running := insert g (running s)\<rparr>)"
      by simp
  }
  {
    fix g t assume "g \<in> set gold_tasks"
    then show "(g, t) \<notin> set dag_edges" by (rule gold_no_downstream)
  }
qed

lemma concurrent_run_result:
  "dag_run run_env (dag_start empty_db) concurrent_run
     = Some \<lparr>running = set gold_tasks,
         succeeded = {T_etl_sales, T_load_orders_csv_file, T_extract_weather_from_api,
           T_extract_customer_from_api, T_test_connection},
         failed = {}, store = run_silver_db\<rparr>"
  by (simp add: concurrent_run_def gold_tasks_def dag_start_def started_def run_bronze run_etl
      run_silver_db_def test_connection_def insert_Diff_if empty_db_def insert_commute)

theorem dag_ordering_witness:
  "dag_run run_env (dag_start empty_db) concurrent_run
     = Some \<lparr>running = set gold_tasks,
         succeeded = {T_etl_sales, T_load_orders_csv_file, T_extract_weather_from_api,
           T_extract_customer_from_api, T_test_connection},
         failed = {}, store = run_silver_db\<rparr>
   \<and> T_process_total_sales \<in> set gold_tasks
   \<and> T_process_total_sales \<in> started \<lparr>running = set gold_tasks,
         succeeded = {T_etl_sales, T_load_orders_csv_file, T_extract_weather_from_api,
           T_extract_customer_from_api, T_test_connection},
         failed = {}, store = run_silver_db\<rparr>
   \<and> T_etl_sales \<in> {T_etl_sales, T_load_orders_csv_file, T_extract_weather_from_api,
           T_extract_customer_from_api, T_test_connection}
   \<and> table_exists Silver_sales run_silver_db
   \<and> table_exists Bronze_customers run_silver_db
   \<and> table_exists Bronze_weather run_silver_db
   \<and> table_exists Bronze_orders run_silver_db"
proof -
  let ?s = "\<lparr>running = set gold_tasks,
         succeeded = {T_etl_sales, T_load_orders_csv_file, T_extract_weather_from_api,
           T_extract_customer_from_api, T_test_connection},
         failed = {}, store = run_silver_db\<rparr>"
  have g: "T_process_total_sales \<in> set gold_tasks" "T_process_total_sales \<in> started ?s"
    and etl: "T_etl_sales \<in> started ?s"
    by (simp_all add: gold_tasks_def started_def)
  note facts = dag_ordering [OF concurrent_run_result]
  from facts g have "T_etl_sales \<in> succeeded ?s \<and> table_exists Silver_sales (store ?s)"
    by blast
  moreover from facts etl have "table_exists Bronze_customers (store ?s)
      \<and> table_exists Bronze_weather (store ?s) \<and> table_exists Bronze_orders (store ?s)"
    by blast
  ultimately show ?thesis using concurrent_run_result g by simp
qed

lemma dag_step_spec_step:
  assumes "dag_step e s ev = Some s'" and "upstream_done s"
  shows "spec_step e s ev = Some s'"
proof (cases ev)
  case (Finish t)
  with assms(1) show ?thesis by simp
next
  case (Start t)
  note st = dag_step_Start [OF assms(1) [unfolded Start]]
  have "set (spec_upstream t) \<subseteq> succeeded s"
  proof (cases "t = T_etl_sales")
    case True
    with st(2) have load: "T_load_orders_csv_file \<in> succeeded s" by simp
    with assms(2) have weather: "T_extract_weather_from_api \<in> succeeded s"
      by (intro chain_orders succeeded_started)
    with assms(2) have "T_extract_customer_from_api \<in> succeeded s"
      by (intro chain_weather succeeded_started)
    with load weather True show ?thesis by (simp add: bronze_tasks_def)
  next
    case False
    with st(2) show ?thesis by (cases t) simp_all
  qed
  with st Start show ?thesis by simp
qed

lemma dag_run_spec_run:
  "dag_run e s evs = Some s' \<Longrightarrow> upstream_done s \<Longrightarrow> spec_run e s evs = Some s'"
proof (induction evs arbitrary: s)
  case Nil
  then show ?case by simp
next
  case (Cons ev evs)
  from Cons.prems(1) obtain s1 where s1: "dag_step e s ev = Some s1"
    and rest: "dag_run e s1 evs = Some s'"
    by (auto split: option.splits)
  from s1 Cons.prems(2) have "upstream_done s1" by (rule dag_step_upstream_done)
  with rest have "spec_run e s1 evs = Some s'" by (rule Cons.IH)
  moreover from s1 Cons.prems(2) have "spec_step e s ev = Some s1" by (rule dag_step_spec_step)
  ultimately show ?case by simp
qed

text \<open>
  C10. The declared edges put the bronze tasks in one chain: customer extraction is the
  only task upstream of weather extraction, and weather extraction the only task upstream
  of order loading. So in every state of a run of the declared graph
  weather extraction has started only if customer extraction has succeeded, order loading
  has started only if weather extraction (and so customer extraction) has succeeded, and
  no two bronze tasks are running at the same time. This is strictly more than the
  ordering the spec asks for: every run of the declared graph is a run under the spec's
  ordering, and starting customer extraction and order loading side by side is a run
  under the spec's ordering that the declared graph does not allow.
\<close>

theorem bronze_chain:
  assumes "dag_run e (dag_start d) evs = Some s"
  shows "upstream_list T_extract_weather_from_api = [T_extract_customer_from_api]
    \<and> upstream_list T_load_orders_csv_file = [T_extract_weather_from_api]
    \<and> (T_extract_weather_from_api \<in> started s \<longrightarrow> T_extract_customer_from_api \<in> succeeded s)
    \<and> (T_load_orders_csv_file \<in> started s \<longrightarrow>
          T_extract_weather_from_api \<in> succeeded s \<and> T_extract_customer_from_api \<in> succeeded s)
    \<and> (\<forall>b \<in> set bronze_tasks. \<forall>b' \<in> set bronze_tasks.
          b \<in> running s \<and> b' \<in> running s \<longrightarrow> b = b')
    \<and> spec_run e (dag_start d) evs = Some s
    \<and> spec_run e (dag_start d) [Start T_extract_customer_from_api, Start T_load_orders_csv_file]
        = Some ((dag_start d)\<lparr>running := {T_load_orders_csv_file, T_extract_customer_from_api}\<rparr>)
    \<and> dag_run e (dag_start d) [Start T_extract_customer_from_api, Start T_load_orders_csv_file]
        = None"
proof (intro conjI ballI impI)
  from assms have inv: "up_to_date e s" by (rule dag_run_invariant)
  then have ud: "upstream_done s" and disj: "running s \<inter> succeeded s = {}"
    by (simp_all add: up_to_date_def)
  have w: "T_extract_customer_from_api \<in> succeeded s"
    if "T_extract_weather_from_api \<in> started s"
    using ud that by (rule chain_weather)
  have l: "T_extract_weather_from_api \<in> succeeded s \<and> T_extract_customer_from_api \<in> succeeded s"
    if "T_load_orders_csv_file \<in> started s"
  proof -
    from ud that have "T_extract_weather_from_api \<in> succeeded s" by (rule chain_orders)
    moreover from this have "T_extract_customer_from_api \<in> succeeded s"
      by (intro w succeeded_started)
    ultimately show ?thesis by simp
  qed
  {
    assume "T_extract_weather_from_api \<in> started s"
    then show "T_extract_customer_from_api \<in> succeeded s" by (rule w)
  }
  {
    assume a: "T_load_orders_csv_file \<in> started s"
    from l [OF a] show "T_extract_weather_from_api \<in> succeeded s" by simp
    from l [OF a] show "T_extract_customer_from_api \<in> succeeded s" by simp
  }
  {
    fix b b' assume b: "b \<in> set bronze_tasks" "b' \<in> set bronze_tasks"
      and r: "b \<in> running s \<and> b' \<in> running s"
    from r have st: "b \<in> started s" "b' \<in> started s" by (simp_all add: running_started)
    from r disj have ns: "b \<notin> succeeded s" "b' \<notin> succeeded s" by auto
    from b have "b = T_extract_customer_from_api \<or> b = T_extract_weather_from_api
        \<or> b = T_load_orders_csv_file"
      and "b' = T_extract_customer_from_api \<or> b' = T_extract_weather_from_api
        \<or> b' = T_load_orders_csv_file"
      by (simp_all add: bronze_tasks_def)
    with st ns w l show "b = b'" by blast
  }
  from assms show "spec_run e (dag_start d) evs = Some s"
    using upstream_done_start by (rule dag_run_spec_run)
  show "upstream_list T_extract_weather_from_api = [T_extract_customer_from_api]"
    by simp
  show "upstream_list T_load_orders_csv_file = [T_extract_weather_from_api]"
    by simp
  show "spec_run e (dag_start d) [Start T_extract_customer_from_api, Start T_load_orders_csv_file]
        = Some ((dag_start d)\<lparr>running := {T_load_orders_csv_file, T_extract_customer_from_api}\<rparr>)"
    by (simp add: dag_start_def started_def)
  show "dag_run e (dag_start d) [Start T_extract_customer_from_api, Start T_load_orders_csv_file]
        = None"
    by (simp add: dag_start_def started_def)
qed

theorem bronze_chain_witness:
  "dag_run run_env (dag_start empty_db) concurrent_run
     = Some \<lparr>running = set gold_tasks,
         succeeded = {T_etl_sales, T_load_orders_csv_file, T_extract_weather_from_api,
           T_extract_customer_from_api, T_test_connection},
         failed = {}, store = run_silver_db\<rparr>
   \<and> spec_run run_env (dag_start empty_db) concurrent_run
     = Some \<lparr>running = set gold_tasks,
         succeeded = {T_etl_sales, T_load_orders_csv_file, T_extract_weather_from_api,
           T_extract_customer_from_api, T_test_connection},
         failed = {}, store = run_silver_db\<rparr>
   \<and> T_load_orders_csv_file \<in> started \<lparr>running = set gold_tasks,
         succeeded = {T_etl_sales, T_load_orders_csv_file, T_extract_weather_from_api,
           T_extract_customer_from_api, T_test_connection},
         failed = {}, store = run_silver_db\<rparr>
   \<and> T_extract_weather_from_api \<in> {T_etl_sales, T_load_orders_csv_file,
         T_extract_weather_from_api, T_extract_customer_from_api, T_test_connection}"
proof -
  let ?s = "\<lparr>running = set gold_tasks,
         succeeded = {T_etl_sales, T_load_orders_csv_file, T_extract_weather_from_api,
           T_extract_customer_from_api, T_test_connection},
         failed = {}, store = run_silver_db\<rparr>"
  have l: "T_load_orders_csv_file \<in> started ?s"
    by (simp add: started_def)
  note facts = bronze_chain [OF concurrent_run_result]
  from facts have "spec_run run_env (dag_start empty_db) concurrent_run = Some ?s"
    by blast
  moreover from facts l have "T_extract_weather_from_api \<in> succeeded ?s"
    by blast
  ultimately show ?thesis using concurrent_run_result l by simp
qed

text \<open>
  C8. After a run in which all twelve tasks succeeded, a second run against the same
  sources, started on the database the first run left, never changes the database (so the
  gold tables of the second run are those of the first) and no task of it fails. A write
  with \<^verbatim>\<open>if_exists='replace'\<close>, which is what every task passes, leaves the frame written and
  nothing of the table's former rows. No state is carried over: any complete run against these sources ends with the same database,
  whatever it held before. Every gold task writes a table that depends on \<^verbatim>\<open>silver_sales\<close>
  alone: on two databases with the same \<^verbatim>\<open>silver_sales\<close> it writes the same table.
\<close>

theorem pipeline_rerun_identical:
  assumes "dag_run e (dag_start d0) evs1 = Some s1" and "succeeded s1 = UNIV"
    and "dag_run e (dag_start (store s1)) evs2 = Some s2"
  shows "store s2 = store s1 \<and> failed s2 = {}
    \<and> (\<forall>(df :: 'r list) old. write_to_db df old Replace = Inr (Some df))
    \<and> (\<forall>d0' evs s. dag_run e (dag_start d0') evs = Some s \<and> succeeded s = UNIV
          \<longrightarrow> store s = store s1)
    \<and> (\<forall>g \<in> set gold_tasks. \<forall>d1 d2 d1'.
          silver_sales d1 = silver_sales d2 \<and> python_callable e g d1 = Inr d1'
          \<longrightarrow> (\<exists>d2'. python_callable e g d2 = Inr d2'
                \<and> (\<forall>n. writes g = Some n \<longrightarrow> same_table n d2' d1')))"
proof (intro conjI allI ballI impI)
  from assms(1) have "up_to_date e s1" by (rule dag_run_invariant)
  with assms(2) have all: "\<forall>t. python_callable e t (store s1) = Inr (store s1)"
    by (simp add: up_to_date_def)
  have "store (dag_start (store s1)) = store s1 \<and> failed (dag_start (store s1)) = {}"
    by (simp add: dag_start_def)
  with all assms(3) have "store s2 = store s1 \<and> failed s2 = {}"
    by (rule dag_run_reproduces)
  then show "store s2 = store s1" and "failed s2 = {}" by simp_all
  show "write_to_db df old Replace = Inr (Some df)" for df :: "'r list" and old
    by (rule write_to_db_Replace)
  {
    fix d0' evs s assume "dag_run e (dag_start d0') evs = Some s \<and> succeeded s = UNIV"
    then have "dag_run e (dag_start d0') evs = Some s" "succeeded s = UNIV" by simp_all
    with assms(1,2) show "store s = store s1" by (rule complete_runs_agree)
  }
  {
    fix g and d1 d2 d1' :: db assume g: "g \<in> set gold_tasks"
      and "silver_sales d1 = silver_sales d2 \<and> python_callable e g d1 = Inr d1'"
    then have same: "silver_sales d1 = silver_sales d2"
      and run: "python_callable e g d1 = Inr d1'" by simp_all
    from g have "reads g = [Silver_sales]" by (auto simp: gold_tasks_def)
    with same have "\<forall>n \<in> set (reads g). same_table n d1 d2" by simp
    then show "\<exists>d2'. python_callable e g d2 = Inr d2'
        \<and> (\<forall>n. writes g = Some n \<longrightarrow> same_table n d2' d1')"
      using run by (rule python_callable_determined)
  }
qed

theorem pipeline_rerun_identical_witness:
  "dag_run run_env (dag_start empty_db) full_run
     = Some \<lparr>running = {}, succeeded = UNIV, failed = {}, store = run_final_db\<rparr>
   \<and> succeeded \<lparr>running = {}, succeeded = UNIV, failed = {}, store = run_final_db\<rparr> = UNIV
   \<and> dag_run run_env
       (dag_start (store \<lparr>running = {}, succeeded = UNIV, failed = {}, store = run_final_db\<rparr>))
       full_run
     = Some \<lparr>running = {}, succeeded = UNIV, failed = {}, store = run_final_db\<rparr>
   \<and> store \<lparr>running = {}, succeeded = UNIV, failed = {}, store = run_final_db\<rparr> = run_final_db
   \<and> gold_total_sales_by_customer run_final_db = Some [(1, 20), (2, 10)]"
proof -
  let ?s = "\<lparr>running = {}, succeeded = UNIV, failed = {}, store = run_final_db\<rparr>"
  have h1: "dag_run run_env (dag_start empty_db) full_run = Some ?s"
    by (rule full_run_result)
  have h2: "succeeded ?s = UNIV" by simp
  have h3: "dag_run run_env (dag_start (store ?s)) full_run = Some ?s"
    by (rule full_run_result)
  from pipeline_rerun_identical [OF h1 h2 h3] have "store ?s = store ?s" by blast
  with h1 h2 h3 show ?thesis by (simp add: run_final_db_def)
qed

end
